theory Spec2Isabelle
  imports Main
begin

section \<open>TrustMed web API: field encryption, audit logging and the disclosure workflow\<close>

text \<open>
  The development embeds the parts of the TrustMed API that its specification talks about:
  \<^item> \<^verbatim>\<open>encryption.middleware\<close>: \<open>encrypt\<close>, \<open>decrypt\<close>, \<open>isLikelyEncrypted\<close>
    (AES-256-CBC with a static IV, hex output);
  \<^item> \<^verbatim>\<open>audit.service\<close>: \<open>logAudit\<close>;
  \<^item> the allocation and data-request models and the insurance controller
    (\<open>updateAllocationStatus\<close>, \<open>updateConnectionStatus\<close>, \<open>createDataRequest\<close>,
    \<open>updateDataRequestStatus\<close>, \<open>requestMedicalRecords\<close>, \<open>getApprovedRecords\<close>).

  A text value is modelled by \<^typ>\<open>string\<close>, read as the UTF-8 bytes of a well-formed
  text, so the \<open>'utf8'\<close> input and output encodings of the cipher are the identity (the
  replacement of malformed sequences by U+FFFD in a text is not modelled). The key and
  the IV, whose lengths in code units and in bytes both matter, are sequences of UTF-16
  code units. The falsy string is \<open>[]\<close>. An exception is a value \<open>Inl e\<close> of a sum type, and
  every \<open>try\<close>/\<open>catch\<close> of the source is a case distinction on it.
\<close>

subsection \<open>Errors and the console\<close>

datatype js_error =
    AppError string nat   \<comment> \<open>\<open>new AppError(message, statusCode)\<close>\<close>
  | Error string          \<comment> \<open>\<open>new Error(message)\<close>, also what a library throws\<close>
  | TypeError string
  | DbError string        \<comment> \<open>a rejected \<open>pool.query\<close>, with its \<open>code\<close>\<close>

datatype console_level = ConsoleLog | ConsoleWarn | ConsoleError

type_synonym console_line = "console_level \<times> string"

subsection \<open>Hexadecimal encoding\<close>

definition hex_digit :: "nat \<Rightarrow> char" where
  "hex_digit n = ''0123456789abcdef'' ! n"

definition hex_val :: "char \<Rightarrow> nat option" where
  "hex_val c =
     (let n = (of_char c :: nat) in
      if 48 \<le> n \<and> n \<le> 57 then Some (n - 48)
      else if 97 \<le> n \<and> n \<le> 102 then Some (n - 87)
      else if 65 \<le> n \<and> n \<le> 70 then Some (n - 55)
      else None)"

definition is_hex_char :: "char \<Rightarrow> bool" where
  "is_hex_char c = (hex_val c \<noteq> None)"

text \<open>\<open>Buffer.toString('hex')\<close>: two lower-case digits for every byte.\<close>

fun hex_encode :: "string \<Rightarrow> string" where
  "hex_encode [] = []"
| "hex_encode (b # bs) =
     hex_digit (of_char b div 16) # hex_digit (of_char b mod 16) # hex_encode bs"

text \<open>
  Decoding a \<open>'hex'\<close> input: pairs of digits, in either case; decoding stops at the first
  pair that is not two hex digits. The decipher below decodes only strings of hex digits
  of even length.
\<close>

fun hex_decode :: "string \<Rightarrow> string" where
  "hex_decode (a # b # cs) =
     (case (hex_val a, hex_val b) of
        (Some x, Some y) \<Rightarrow> char_of (16 * x + y) # hex_decode cs
      | _ \<Rightarrow> [])"
| "hex_decode _ = []"

subsection \<open>The block cipher mode: CBC with PKCS#7 padding\<close>

fun xor_byte :: "char \<Rightarrow> char \<Rightarrow> char" where
  "xor_byte (Char a0 a1 a2 a3 a4 a5 a6 a7) (Char b0 b1 b2 b3 b4 b5 b6 b7) =
     Char (a0 \<noteq> b0) (a1 \<noteq> b1) (a2 \<noteq> b2) (a3 \<noteq> b3) (a4 \<noteq> b4) (a5 \<noteq> b5) (a6 \<noteq> b6) (a7 \<noteq> b7)"

definition xor_block :: "string \<Rightarrow> string \<Rightarrow> string" where
  "xor_block a b = map2 xor_byte a b"

text \<open>\<open>blocks n bs\<close>: the first \<open>n\<close> 16-byte blocks of \<open>bs\<close>.\<close>

fun blocks :: "nat \<Rightarrow> string \<Rightarrow> string list" where
  "blocks 0 bs = []"
| "blocks (Suc n) bs = take 16 bs # blocks n (drop 16 bs)"

fun cbc_encrypt :: "(string \<Rightarrow> string) \<Rightarrow> string \<Rightarrow> string list \<Rightarrow> string list" where
  "cbc_encrypt E prev [] = []"
| "cbc_encrypt E prev (p # ps) = (let c = E (xor_block p prev) in c # cbc_encrypt E c ps)"

fun cbc_decrypt :: "(string \<Rightarrow> string) \<Rightarrow> string \<Rightarrow> string list \<Rightarrow> string list" where
  "cbc_decrypt D prev [] = []"
| "cbc_decrypt D prev (c # cs) = xor_block (D c) prev # cbc_decrypt D c cs"

definition pkcs7_pad :: "string \<Rightarrow> string" where
  "pkcs7_pad bs = (let p = 16 - length bs mod 16 in bs @ replicate p (char_of p))"

text \<open>
  Removing the padding of the last plaintext block, as the final step of a decipher does:
  the last byte \<open>p\<close> must be between 1 and 16 and the last \<open>p\<close> bytes must all be \<open>p\<close>.
\<close>

definition pkcs7_unpad :: "string \<Rightarrow> js_error + string" where
  "pkcs7_unpad blk =
     (if blk = [] then Inl (Error ''wrong final block length'')
      else let p = (of_char (last blk) :: nat) in
        if p = 0 \<or> 16 < p \<or> length blk < p then Inl (Error ''bad decrypt'')
        else if list_all (\<lambda>c. c = last blk) (drop (length blk - p) blk)
          then Inr (take (length blk - p) blk)
          else Inl (Error ''bad decrypt''))"

subsection \<open>The encryption middleware\<close>

text \<open>
  The process environment and the one primitive that is not code of the repository: the
  AES-256 block permutation under a key, in both directions. The key and the IV are
  JavaScript strings, that is sequences of UTF-16 code units (numbers below 65536): the
  source pads and slices them by units and only then turns them into bytes.
\<close>

type_synonym js_string = "nat list"

record crypto_env =
  env_ENCRYPTION_DISABLED :: "string option"
  env_ENCRYPTION_KEY :: "js_string option"
  env_ENCRYPTION_IV :: "js_string option"
  aes256_encrypt_block :: "string \<Rightarrow> string \<Rightarrow> string"
  aes256_decrypt_block :: "string \<Rightarrow> string \<Rightarrow> string"

text \<open>\<open>a || b\<close> on a string that may be unset: unset and empty are falsy.\<close>

definition or_default :: "'a list option \<Rightarrow> 'a list \<Rightarrow> 'a list" where
  "or_default v d = (case v of None \<Rightarrow> d | Some s \<Rightarrow> if s = [] then d else s)"

text \<open>The code units of a literal of ASCII characters.\<close>

definition units :: "string \<Rightarrow> js_string" where
  "units s = map of_char s"

definition ENCRYPTION_DISABLED :: "('a crypto_env_scheme) \<Rightarrow> bool" where
  "ENCRYPTION_DISABLED env = (env_ENCRYPTION_DISABLED env = Some ''true'')"

definition ENCRYPTION_KEY :: "('a crypto_env_scheme) \<Rightarrow> js_string" where
  "ENCRYPTION_KEY env = or_default (env_ENCRYPTION_KEY env) (units ''your_fallback_32_character_key_here_'')"

definition ENCRYPTION_IV :: "('a crypto_env_scheme) \<Rightarrow> js_string" where
  "ENCRYPTION_IV env = or_default (env_ENCRYPTION_IV env) (units ''your_16_char_iv_'')"

text \<open>\<open>s.padEnd(n)\<close> fills up with spaces to \<open>n\<close> code units.\<close>

definition padEnd :: "nat \<Rightarrow> js_string \<Rightarrow> js_string" where
  "padEnd n s = s @ replicate (n - length s) 32"

text \<open>
  \<open>Buffer.from(s)\<close>: the UTF-8 bytes of a JavaScript string. A code unit below 128 is one
  byte, one below 2048 two bytes, a surrogate pair four bytes, any other unit three; a
  surrogate without its partner is written as U+FFFD.
\<close>

definition replacement_bytes :: string where
  "replacement_bytes = [char_of (239::nat), char_of (191::nat), char_of (189::nat)]"

fun utf8_encode :: "js_string \<Rightarrow> string" where
  "utf8_encode [] = []"
| "utf8_encode (u # us) =
     (if u < 128 then char_of u # utf8_encode us
      else if u < 2048 then char_of (192 + u div 64) # char_of (128 + u mod 64) # utf8_encode us
      else if 55296 \<le> u \<and> u < 56320 then
        (case us of
           [] \<Rightarrow> replacement_bytes
         | l # us' \<Rightarrow>
             if 56320 \<le> l \<and> l < 57344
             then (let cp = 65536 + (u - 55296) * 1024 + (l - 56320) in
                   char_of (240 + cp div 262144) # char_of (128 + cp div 4096 mod 64) #
                   char_of (128 + cp div 64 mod 64) # char_of (128 + cp mod 64) # utf8_encode us')
             else replacement_bytes @ utf8_encode us)
      else if 56320 \<le> u \<and> u < 57344 then replacement_bytes @ utf8_encode us
      else char_of (224 + u div 4096) # char_of (128 + u div 64 mod 64) # char_of (128 + u mod 64) #
           utf8_encode us)"

text \<open>
  \<open>Buffer.from(ENCRYPTION_KEY.padEnd(32).slice(0, 32))\<close> and the same with 16 for the IV:
  32 and 16 code units, which are 32 and 16 bytes when every unit is below 128 and more
  bytes otherwise.
\<close>

definition key :: "('a crypto_env_scheme) \<Rightarrow> string" where
  "key env = utf8_encode (take 32 (padEnd 32 (ENCRYPTION_KEY env)))"

definition iv :: "('a crypto_env_scheme) \<Rightarrow> string" where
  "iv env = utf8_encode (take 16 (padEnd 16 (ENCRYPTION_IV env)))"

text \<open>
  \<open>crypto.createCipheriv('aes-256-cbc', key, iv)\<close> and \<open>createDecipheriv\<close> throw unless the
  key has 32 bytes and the IV 16.
\<close>

definition createCipheriv :: "('a crypto_env_scheme) \<Rightarrow> js_error + unit" where
  "createCipheriv env =
     (if length (key env) \<noteq> 32 then Inl (Error ''Invalid key length'')
      else if length (iv env) \<noteq> 16 then Inl (Error ''Invalid initialization vector'')
      else Inr ())"

definition createDecipheriv :: "('a crypto_env_scheme) \<Rightarrow> js_error + unit" where
  "createDecipheriv env =
     (if length (key env) \<noteq> 32 then Inl (Error ''Invalid key length'')
      else if length (iv env) \<noteq> 16 then Inl (Error ''Invalid initialization vector'')
      else Inr ())"

text \<open>
  \<open>cipher.update(text, 'utf8', 'hex') + cipher.final('hex')\<close>: the text is padded, encrypted
  block after block with chaining from the IV, and written in hex.
\<close>

definition cipher_update_final :: "('a crypto_env_scheme) \<Rightarrow> string \<Rightarrow> string" where
  "cipher_update_final env text =
     (let padded = pkcs7_pad text in
      hex_encode (concat (cbc_encrypt (aes256_encrypt_block env (key env)) (iv env)
                            (blocks (length padded div 16) padded))))"

definition encrypt :: "('a crypto_env_scheme) \<Rightarrow> string \<Rightarrow> string \<times> console_line list" where
  "encrypt env text =
     (if text = [] \<or> ENCRYPTION_DISABLED env then (text, [])
      else case createCipheriv env of
          Inr _ \<Rightarrow> (cipher_update_final env text, [])
        | Inl error \<Rightarrow> (text, [(ConsoleError, ''Encryption error:'')]))"

text \<open>
  The decipher. \<open>update(encryptedText, 'hex', 'utf8')\<close> throws when the hex input has an
  odd number of digits. Otherwise it decodes the input and returns the plaintext of the
  blocks it can release: with padding on, a last complete block is held back for
  \<open>final\<close>. \<open>final('utf8')\<close> throws when the input was empty or not a whole number of
  blocks, or when the padding of the last block is wrong.
\<close>

definition decipher_blocks :: "('a crypto_env_scheme) \<Rightarrow> string \<Rightarrow> string list" where
  "decipher_blocks env encryptedText =
     (let bytes = hex_decode encryptedText in
      cbc_decrypt (aes256_decrypt_block env (key env)) (iv env) (blocks (length bytes div 16) bytes))"

definition decipher_update :: "('a crypto_env_scheme) \<Rightarrow> string \<Rightarrow> js_error + string" where
  "decipher_update env encryptedText =
     (if odd (length encryptedText)
      then Inl (TypeError ''ERR_INVALID_ARG_VALUE'')
      else let n = length (hex_decode encryptedText); P = decipher_blocks env encryptedText in
        Inr (if n mod 16 = 0 then concat (butlast P) else concat P))"

definition decipher_final :: "('a crypto_env_scheme) \<Rightarrow> string \<Rightarrow> js_error + string" where
  "decipher_final env encryptedText =
     (let n = length (hex_decode encryptedText); P = decipher_blocks env encryptedText in
      if n = 0 \<or> n mod 16 \<noteq> 0 then Inl (Error ''wrong final block length'')
      else pkcs7_unpad (last P))"

text \<open>The regular expression \<open>/^[0-9a-f]+$/i\<close>.\<close>

definition hex_string :: "string \<Rightarrow> bool" where
  "hex_string s = (s \<noteq> [] \<and> list_all is_hex_char s)"

text \<open>
  \<open>decrypt\<close> has two handlers. The outer \<open>catch\<close> takes what \<open>createDecipheriv\<close> and
  \<open>update\<close> throw, the inner one what \<open>final\<close> throws; both return the same string.
\<close>

definition decrypt :: "('a crypto_env_scheme) \<Rightarrow> string \<Rightarrow> string \<times> console_line list" where
  "decrypt env encryptedText =
     (if encryptedText = [] \<or> ENCRYPTION_DISABLED env then (encryptedText, [])
      else if \<not> hex_string encryptedText then (encryptedText, [])
      else case createDecipheriv env of
          Inl error \<Rightarrow> (''[Encrypted content]'', [(ConsoleError, ''Decryption error:'')])
        | Inr _ \<Rightarrow>
            (case decipher_update env encryptedText of
               Inl error \<Rightarrow> (''[Encrypted content]'', [(ConsoleError, ''Decryption error:'')])
             | Inr decrypted \<Rightarrow>
                 (case decipher_final env encryptedText of
                    Inr s \<Rightarrow> (decrypted @ s, [])
                  | Inl finalError \<Rightarrow>
                      (''[Encrypted content]'', [(ConsoleError, ''Error in final decryption step:'')]))))"

text \<open>The regular expression \<open>/^[0-9a-f]{32,}$/i\<close>, after the guard \<open>!text\<close>.\<close>

definition isLikelyEncrypted :: "string \<Rightarrow> bool" where
  "isLikelyEncrypted text = (if text = [] then False else 32 \<le> length text \<and> list_all is_hex_char text)"

text \<open>
  \<open>getAllRecords\<close> of the record model, after its \<open>SELECT\<close>: the rows are mapped, and a
  description is deciphered only when \<open>isLikelyEncrypted\<close> holds for it. \<open>decrypt\<close> has caught
  every exception itself, so the \<open>catch\<close> of the callback is never entered.
\<close>

record record_row =
  record_id :: string
  doc_id :: string
  patient_id :: string
  description :: string

definition getAllRecords_row :: "('a crypto_env_scheme) \<Rightarrow> record_row \<Rightarrow> record_row \<times> console_line list" where
  "getAllRecords_row env record =
     (if description record \<noteq> [] \<and> isLikelyEncrypted (description record)
      then (let (d, out) = decrypt env (description record) in (record\<lparr>description := d\<rparr>, out))
      else (record, []))"

definition getAllRecords :: "('a crypto_env_scheme) \<Rightarrow> record_row list \<Rightarrow> record_row list \<times> console_line list" where
  "getAllRecords env rows =
     (map (\<lambda>r. fst (getAllRecords_row env r)) rows, concat (map (\<lambda>r. snd (getAllRecords_row env r)) rows))"

subsection \<open>The store\<close>

text \<open>
  The tables are lists of rows with the columns the queries of the source read and write.
  Statuses of allocations and data requests are the numbers the code stores
  (0 pending, 1 approved, 2 rejected). The store answers every statement; a statement is
  rejected only where the model says so: a duplicate \<open>request_id\<close>, and the audit
  \<open>INSERT\<close>, whose outcome is a parameter of every operation that writes the audit log.
\<close>

record insurance_allocation =
  ia_id :: nat
  ia_company_id :: string
  ia_patient_id :: string
  ia_status :: int
  ia_notes :: "string option"
  ia_created_at :: nat

record data_request =
  dr_request_id :: string
  dr_company_id :: string
  dr_patient_id :: string
  dr_purpose :: string
  dr_date_range_start :: "string option"
  dr_date_range_end :: "string option"
  dr_status :: int
  dr_request_date :: nat
  dr_response_date :: "nat option"
  dr_response_notes :: "string option"
  dr_created_by :: string
  dr_request_details :: string

record approved_record =
  ar_request_id :: string
  ar_record_id :: string
  ar_approved_by :: string
  ar_access_granted_until :: "nat option"
  ar_access_count :: int
  ar_max_access_count :: int

record record_request =
  rr_id :: nat
  rr_company_id :: string
  rr_patient_id :: string
  rr_request_details :: string
  rr_status :: string
  rr_created_at :: nat

record patient =
  p_patient_id :: string
  p_name :: string

record insurance_company =
  ic_company_id :: string
  ic_company_name :: string

record staff_member =
  s_staff_id :: string
  s_first_name :: string
  s_last_name :: string

record audit_log =
  al_id :: nat
  al_user_id :: string
  al_action :: string
  al_resource_type :: string
  al_resource_id :: string
  al_details :: "(string \<times> string) list"
  al_created_at :: nat

record db =
  insurance_allocations :: "insurance_allocation list"
  data_requests :: "data_request list"
  approved_records :: "approved_record list"
  records :: "record_row list"
  record_requests :: "record_request list"
  patients :: "patient list"
  insurance_companies :: "insurance_company list"
  staff :: "staff_member list"
  audit_logs :: "audit_log list"
  clock :: nat          \<comment> \<open>\<open>NOW()\<close> and \<open>Date.now()\<close>\<close>
  console :: "console_line list"

record user =
  u_id :: string
  u_name :: string

datatype 'a response =
    Json nat 'a          \<comment> \<open>\<open>res.status(code).json(body)\<close>\<close>
  | Next js_error        \<comment> \<open>\<open>next(error)\<close>\<close>

definition console_write :: "console_level \<Rightarrow> string \<Rightarrow> db \<Rightarrow> db" where
  "console_write lvl msg d = d\<lparr>console := console d @ [(lvl, msg)]\<rparr>"

text \<open>\<open>a || b\<close> on an optional string: \<open>undefined\<close>, \<open>null\<close> and \<open>''\<close> are falsy.\<close>

definition js_or :: "string option \<Rightarrow> string option \<Rightarrow> string option" where
  "js_or a b = (case a of None \<Rightarrow> b | Some s \<Rightarrow> if s = [] then b else Some s)"

text \<open>Decimal printing of a number, and \<open>s.slice(-n)\<close>.\<close>

fun toString :: "nat \<Rightarrow> string" where
  "toString n = (if n < 10 then [char_of (48 + n)] else toString (n div 10) @ [char_of (48 + n mod 10)])"

definition slice_last :: "nat \<Rightarrow> string \<Rightarrow> string" where
  "slice_last n s = drop (length s - n) s"

definition toLowerCase :: "string \<Rightarrow> string" where
  "toLowerCase s =
     map (\<lambda>c. let n = (of_char c :: nat) in if 65 \<le> n \<and> n \<le> 90 then char_of (n + 32) else c) s"

text \<open>An \<open>AUTO_INCREMENT\<close> key: one more than the largest key in the table.\<close>

definition next_id :: "nat list \<Rightarrow> nat" where
  "next_id ids = Suc (fold max ids 0)"

subsection \<open>The audit service\<close>

text \<open>
  \<open>logAudit\<close>: one \<open>INSERT\<close> inside \<open>try\<close>; the \<open>catch\<close> writes to \<open>console.error\<close> and
  returns \<open>null\<close>. The parameter \<open>fault\<close> is the behaviour of the store on that
  statement: \<open>None\<close> when it executes, \<open>Some e\<close> when \<open>pool.query\<close> rejects with \<open>e\<close>.
\<close>

definition insert_audit_log ::
  "js_error option \<Rightarrow> string \<Rightarrow> string \<Rightarrow> string \<Rightarrow> string \<Rightarrow> (string \<times> string) list \<Rightarrow> db \<Rightarrow> js_error + nat \<times> db" where
  "insert_audit_log fault userId action resourceType resourceId details d =
     (case fault of
        Some e \<Rightarrow> Inl e
      | None \<Rightarrow>
          (let insertId = next_id (map al_id (audit_logs d)) in
           Inr (insertId,
                d\<lparr>audit_logs := audit_logs d @
                   [\<lparr>al_id = insertId, al_user_id = userId, al_action = action,
                     al_resource_type = resourceType, al_resource_id = resourceId,
                     al_details = details, al_created_at = clock d\<rparr>]\<rparr>)))"

definition logAudit ::
  "js_error option \<Rightarrow> string \<Rightarrow> string \<Rightarrow> string \<Rightarrow> string \<Rightarrow> (string \<times> string) list \<Rightarrow> db \<Rightarrow> (js_error + nat option) \<times> db" where
  "logAudit fault userId action resourceType resourceId details d =
     (case insert_audit_log fault userId action resourceType resourceId details d of
        Inr (insertId, d') \<Rightarrow> (Inr (Some insertId), d')
      | Inl error \<Rightarrow> (Inr None, console_write ConsoleError ''Audit logging error:'' d))"

subsection \<open>The allocation model and the connection handler\<close>

definition formatStatus :: "int \<Rightarrow> string" where
  "formatStatus status =
     (if status = 0 then ''pending''
      else if status = 1 then ''approved''
      else if status = 2 then ''rejected''
      else ''unknown'')"

definition parseStatus :: "string \<Rightarrow> int" where
  "parseStatus status =
     (let s = toLowerCase status in
      if s = ''pending'' then 0
      else if s = ''approved'' then 1
      else if s = ''rejected'' then 2
      else 0)"

record allocation_view =
  av_allocation_id :: nat
  av_company_id :: string
  av_patient_id :: string
  av_status :: string
  av_notes :: "string option"
  av_created_at :: nat
  av_patient_name :: string
  av_company_name :: string

text \<open>\<open>getAllocationById\<close>: the allocation joined with its patient and its company.\<close>

definition getAllocationById :: "nat \<Rightarrow> db \<Rightarrow> allocation_view option" where
  "getAllocationById ident d =
     (let rows = [(a, p, ic). a \<leftarrow> insurance_allocations d, p \<leftarrow> patients d, ic \<leftarrow> insurance_companies d,
                   ia_patient_id a = p_patient_id p, ia_company_id a = ic_company_id ic, ia_id a = ident]
      in case rows of
           [] \<Rightarrow> None
         | (a, p, ic) # _ \<Rightarrow>
             Some \<lparr>av_allocation_id = ia_id a, av_company_id = ia_company_id a,
                   av_patient_id = ia_patient_id a, av_status = formatStatus (ia_status a),
                   av_notes = ia_notes a, av_created_at = ia_created_at a,
                   av_patient_name = p_name p, av_company_name = ic_company_name ic\<rparr>)"

text \<open>
  \<open>updateAllocationStatus(id, status, notes)\<close>: a \<open>SELECT\<close> by id, an error when there is
  no row, then an \<open>UPDATE\<close> by id of status and notes.
\<close>

definition updateAllocationStatus ::
  "nat \<Rightarrow> int \<Rightarrow> string option \<Rightarrow> db \<Rightarrow> (js_error + allocation_view option) \<times> db" where
  "updateAllocationStatus ident status notes d =
     (let rows = filter (\<lambda>a. ia_id a = ident) (insurance_allocations d) in
      case rows of
        [] \<Rightarrow> (Inl (Error ''Insurance allocation not found''), d)
      | row0 # _ \<Rightarrow>
          (let d' = d\<lparr>insurance_allocations :=
                        map (\<lambda>a. if ia_id a = ident
                                  then a\<lparr>ia_status := status, ia_notes := js_or notes (ia_notes row0)\<rparr>
                                  else a)
                            (insurance_allocations d)\<rparr>
           in (Inr (getAllocationById ident d'), d')))"

text \<open>
  \<open>updateConnectionStatus\<close> of the insurance controller. The notification e-mails after the
  audit entry are sent inside their own \<open>try\<close>/\<open>catch\<close> and change neither the store nor
  the response; they are left out.
\<close>

definition updateConnectionStatus ::
  "js_error option \<Rightarrow> nat \<Rightarrow> string \<Rightarrow> string option \<Rightarrow> user \<Rightarrow> db \<Rightarrow> string response \<times> db" where
  "updateConnectionStatus fault allocationId status notes usr d =
     (let insuranceId = u_id usr;
          allocation = filter (\<lambda>a. ia_id a = allocationId \<and> ia_company_id a = insuranceId)
                         (insurance_allocations d)
      in if allocation = [] then (Next (AppError ''Connection request not found'' 404), d)
         else
           (let statusValue = (if status = ''approved'' then 1 else 2);
                d1 = d\<lparr>insurance_allocations :=
                         map (\<lambda>a. if ia_id a = allocationId
                                   then a\<lparr>ia_status := statusValue, ia_notes := js_or notes None\<rparr>
                                   else a)
                             (insurance_allocations d)\<rparr>;
                (_, d2) = logAudit fault (u_id usr) ''update'' ''insurance_allocation''
                            (toString allocationId)
                            [(''status'', status), (''notes'', case notes of None \<Rightarrow> [] | Some n \<Rightarrow> n)] d1
            in (Json 200 (''Connection '' @ (if status = ''approved'' then ''approved'' else ''rejected'')
                            @ '' successfully''), d2)))"

subsection \<open>The data-request model and its handlers\<close>

record data_request_view =
  dv_request_id :: string
  dv_company_id :: string
  dv_patient_id :: string
  dv_purpose :: string
  dv_date_range_start :: "string option"
  dv_date_range_end :: "string option"
  dv_status :: string
  dv_request_date :: nat
  dv_response_date :: "nat option"
  dv_response_notes :: "string option"
  dv_patient_name :: string
  dv_company_name :: string

definition getDataRequestById :: "string \<Rightarrow> db \<Rightarrow> data_request_view option" where
  "getDataRequestById ident d =
     (let rows = [(r, p, ic). r \<leftarrow> data_requests d, p \<leftarrow> patients d, ic \<leftarrow> insurance_companies d,
                   dr_patient_id r = p_patient_id p, dr_company_id r = ic_company_id ic,
                   dr_request_id r = ident]
      in case rows of
           [] \<Rightarrow> None
         | (r, p, ic) # _ \<Rightarrow>
             Some \<lparr>dv_request_id = dr_request_id r, dv_company_id = dr_company_id r,
                   dv_patient_id = dr_patient_id r, dv_purpose = dr_purpose r,
                   dv_date_range_start = dr_date_range_start r,
                   dv_date_range_end = dr_date_range_end r,
                   dv_status = formatStatus (dr_status r), dv_request_date = dr_request_date r,
                   dv_response_date = dr_response_date r, dv_response_notes = dr_response_notes r,
                   dv_patient_name = p_name p, dv_company_name = ic_company_name ic\<rparr>)"

record request_data =
  rd_company_id :: string
  rd_patient_id :: string
  rd_purpose :: string
  rd_date_range_start :: "string option"
  rd_date_range_end :: "string option"
  rd_created_by :: string
  rd_request_details :: string

text \<open>
  \<open>createDataRequest\<close> of the model: the id is \<open>REQ\<close> and the last six digits of the clock;
  the row is inserted with status \<open>'0'\<close>; the primary key rejects a second row with the id.
\<close>

definition dataRequestModel_createDataRequest ::
  "request_data \<Rightarrow> db \<Rightarrow> (js_error + data_request_view option) \<times> db" where
  "dataRequestModel_createDataRequest requestData d =
     (let request_id = ''REQ'' @ slice_last 6 (toString (clock d)) in
      if request_id \<in> set (map dr_request_id (data_requests d))
      then (Inl (DbError ''ER_DUP_ENTRY''), d)
      else
        (let d' = d\<lparr>data_requests := data_requests d @
                      [\<lparr>dr_request_id = request_id,
                        dr_company_id = rd_company_id requestData,
                        dr_patient_id = rd_patient_id requestData,
                        dr_purpose = rd_purpose requestData,
                        dr_date_range_start = js_or (rd_date_range_start requestData) None,
                        dr_date_range_end = js_or (rd_date_range_end requestData) None,
                        dr_status = 0,
                        dr_request_date = clock d,
                        dr_response_date = None,
                        dr_response_notes = None,
                        dr_created_by = rd_created_by requestData,
                        dr_request_details = rd_request_details requestData\<rparr>]\<rparr>
         in (Inr (getDataRequestById request_id d'), d')))"

text \<open>
  \<open>updateDataRequestStatus(id, status, notes)\<close>: the request is read, an error is thrown
  when it is absent, and the row is updated by id. The status e-mail is sent inside its
  own \<open>try\<close>/\<open>catch\<close> and is left out.
\<close>

definition updateDataRequestStatus ::
  "string \<Rightarrow> int \<Rightarrow> string option \<Rightarrow> db \<Rightarrow> (js_error + data_request_view option) \<times> db" where
  "updateDataRequestStatus ident status notes d =
     (case getDataRequestById ident d of
        None \<Rightarrow> (Inl (Error ''Data request not found''), d)
      | Some request \<Rightarrow>
          (let d' = d\<lparr>data_requests :=
                        map (\<lambda>r. if dr_request_id r = ident
                                  then r\<lparr>dr_status := status, dr_response_notes := js_or notes None,
                                         dr_response_date := Some (clock d)\<rparr>
                                  else r)
                            (data_requests d)\<rparr>
           in (Inr (getDataRequestById ident d'), d')))"

definition notes_text :: "string option \<Rightarrow> string" where
  "notes_text notes = (case notes of None \<Rightarrow> [] | Some n \<Rightarrow> n)"

definition approveDataRequest ::
  "js_error option \<Rightarrow> string \<Rightarrow> string option \<Rightarrow> user \<Rightarrow> db \<Rightarrow> data_request_view option response \<times> db" where
  "approveDataRequest fault ident notes usr d =
     (case updateDataRequestStatus ident (parseStatus ''approved'') notes d of
        (Inl error, d1) \<Rightarrow> (Next error, d1)
      | (Inr updatedRequest, d1) \<Rightarrow>
          (let (_, d2) = logAudit fault (u_id usr) ''approve'' ''data_request'' ident
                           [(''notes'', notes_text notes)] d1
           in (Json 200 updatedRequest, d2)))"

definition rejectDataRequest ::
  "js_error option \<Rightarrow> string \<Rightarrow> string option \<Rightarrow> user \<Rightarrow> db \<Rightarrow> data_request_view option response \<times> db" where
  "rejectDataRequest fault ident notes usr d =
     (if js_or notes None = None then (Next (AppError ''Rejection reason is required'' 400), d)
      else case updateDataRequestStatus ident (parseStatus ''rejected'') notes d of
        (Inl error, d1) \<Rightarrow> (Next error, d1)
      | (Inr updatedRequest, d1) \<Rightarrow>
          (let (_, d2) = logAudit fault (u_id usr) ''reject'' ''data_request'' ident
                           [(''notes'', notes_text notes)] d1
           in (Json 200 updatedRequest, d2)))"

subsection \<open>Submitting a request\<close>

text \<open>The check that the patient is connected to the company: an allocation with status 1.\<close>

definition select_connection :: "string \<Rightarrow> string \<Rightarrow> db \<Rightarrow> insurance_allocation list" where
  "select_connection patientId insuranceId d =
     filter (\<lambda>a. ia_patient_id a = patientId \<and> ia_company_id a = insuranceId \<and> ia_status a = 1)
       (insurance_allocations d)"

text \<open>
  \<open>requestMedicalRecords\<close> of the insurance controller writes a row of \<open>record_requests\<close>
  with status \<open>'pending'\<close>. The e-mails to the administrators are left out.
\<close>

definition requestMedicalRecords ::
  "js_error option \<Rightarrow> string \<Rightarrow> string \<Rightarrow> user \<Rightarrow> db \<Rightarrow> nat response \<times> db" where
  "requestMedicalRecords fault patientId requestDetails usr d =
     (let insuranceId = u_id usr;
          d0 = console_write ConsoleLog ''Request details:'' d;
          connection = select_connection patientId insuranceId d0;
          d1 = console_write ConsoleLog ''Connection:'' d0
      in if connection = []
         then (Next (AppError ''Patient is not connected to your insurance company'' 403), d1)
         else
           (let requestId = next_id (map rr_id (record_requests d1));
                d2 = d1\<lparr>record_requests := record_requests d1 @
                          [\<lparr>rr_id = requestId, rr_company_id = insuranceId, rr_patient_id = patientId,
                            rr_request_details = requestDetails, rr_status = ''pending'',
                            rr_created_at = clock d1\<rparr>]\<rparr>;
                (_, d3) = logAudit fault (u_id usr) ''create'' ''record_request'' (toString requestId)
                            [(''patient_id'', patientId)] d2
            in (Json 201 requestId, d3)))"

record request_body =
  rb_company_id :: string
  rb_patient_id :: string
  rb_purpose :: string
  rb_date_range_start :: "string option"
  rb_date_range_end :: "string option"
  rb_request_details :: string

definition null_request_id :: js_error where
  "null_request_id = TypeError ''Cannot read properties of null (reading 'request_id')''"

text \<open>
  \<open>createDataRequest\<close> of the insurance controller (\<open>POST /insurance/requests\<close>). The
  company is the signed-in user; \<open>validateConnection\<close> is the constant \<open>true\<close>.
\<close>

definition insuranceController_createDataRequest ::
  "js_error option \<Rightarrow> request_body \<Rightarrow> user \<Rightarrow> db \<Rightarrow> data_request_view response \<times> db" where
  "insuranceController_createDataRequest fault body usr d =
     (let insuranceId = u_id usr in
      if rb_patient_id body = [] then (Next (AppError ''Patient ID is required'' 400), d)
      else
        (let connection = select_connection (rb_patient_id body) insuranceId d;
             validateConnection = True
         in if validateConnection \<and> connection = []
            then (Next (AppError ''Patient is not connected to your insurance company'' 403),
                  console_write ConsoleLog ''Available connections:'' d)
            else
              (let requestData = \<lparr>rd_company_id = insuranceId, rd_patient_id = rb_patient_id body,
                                  rd_purpose = rb_purpose body,
                                  rd_date_range_start = rb_date_range_start body,
                                  rd_date_range_end = rb_date_range_end body,
                                  rd_created_by = u_id usr,
                                  rd_request_details = rb_request_details body\<rparr>;
                   d0 = console_write ConsoleLog ''Creating data request with:'' d
               in case dataRequestModel_createDataRequest requestData d0 of
                    (Inl error, d1) \<Rightarrow>
                      (Next error, console_write ConsoleError ''Create data request error:'' d1)
                  | (Inr None, d1) \<Rightarrow>
                      (Next null_request_id, console_write ConsoleError ''Create data request error:'' d1)
                  | (Inr (Some newRequest), d1) \<Rightarrow>
                      (let (_, d2) = logAudit fault (u_id usr) ''create'' ''data_request''
                                       (dv_request_id newRequest)
                                       [(''purpose'', rb_purpose body),
                                        (''date_range'',
                                           or_default (rb_date_range_start body) ''any'' @ '' to '' @
                                           or_default (rb_date_range_end body) ''any'')] d1
                       in (Json 201 newRequest, d2)))))"

text \<open>
  \<open>createDataRequest\<close> of the data-request controller: the request data are the body with
  \<open>created_by\<close> set to the user; the model is called at once.
\<close>

definition dataRequestController_createDataRequest ::
  "js_error option \<Rightarrow> request_body \<Rightarrow> user \<Rightarrow> db \<Rightarrow> data_request_view response \<times> db" where
  "dataRequestController_createDataRequest fault body usr d =
     (let requestData = \<lparr>rd_company_id = rb_company_id body, rd_patient_id = rb_patient_id body,
                         rd_purpose = rb_purpose body,
                         rd_date_range_start = rb_date_range_start body,
                         rd_date_range_end = rb_date_range_end body,
                         rd_created_by = u_id usr,
                         rd_request_details = rb_request_details body\<rparr>
      in case dataRequestModel_createDataRequest requestData d of
           (Inl error, d1) \<Rightarrow> (Next error, d1)
         | (Inr None, d1) \<Rightarrow> (Next null_request_id, d1)
         | (Inr (Some newRequest), d1) \<Rightarrow>
             (let (_, d2) = logAudit fault (u_id usr) ''create'' ''data_request''
                              (dv_request_id newRequest)
                              [(''patient_id'', dv_patient_id newRequest),
                               (''company_id'', dv_company_id newRequest)] d1
              in (Json 201 newRequest, d2)))"

subsection \<open>Reading the approved records\<close>

text \<open>
  The two \<open>SELECT\<close>s of \<open>getApprovedRecords\<close>. The second joins the records of the
  request's patient with the patient and the doctor and keeps those whose id is in
  \<open>approved_records\<close> for the request; the columns of the optional joins (test,
  prescription, medicine) are left out. Of \<open>approved_records\<close> it reads \<open>request_id\<close> and
  \<open>record_id\<close> only.
\<close>

definition select_approved_request :: "string \<Rightarrow> string \<Rightarrow> db \<Rightarrow> data_request list" where
  "select_approved_request requestId insuranceId d =
     filter (\<lambda>r. dr_request_id r = requestId \<and> dr_company_id r = insuranceId \<and> dr_status r = 1)
       (data_requests d)"

type_synonym approved_row = "record_row \<times> string \<times> string"

definition select_approved_records :: "string \<Rightarrow> string \<Rightarrow> db \<Rightarrow> approved_row list" where
  "select_approved_records patientId requestId d =
     [(r, p_name p, s_first_name s @ '' '' @ s_last_name s).
        r \<leftarrow> records d, p \<leftarrow> patients d, s \<leftarrow> staff d,
        patient_id r = p_patient_id p, doc_id r = s_staff_id s,
        patient_id r = patientId,
        record_id r \<in> set (map ar_record_id (filter (\<lambda>a. ar_request_id a = requestId) (approved_records d)))]"

definition getApprovedRecords ::
  "js_error option \<Rightarrow> string \<Rightarrow> user \<Rightarrow> db \<Rightarrow> (data_request \<times> approved_row list) response \<times> db" where
  "getApprovedRecords fault requestId usr d =
     (let insuranceId = u_id usr;
          request = select_approved_request requestId insuranceId d
      in case request of
           [] \<Rightarrow> (Next (AppError ''Approved request not found'' 404), d)
         | request0 # _ \<Rightarrow>
             (let found = select_approved_records (dr_patient_id request0) requestId d;
                  d1 = console_write ConsoleLog (''Found '' @ toString (length found) @ '' approved records'') d;
                  (_, d2) = logAudit fault (u_id usr) ''view'' ''approved_records'' requestId
                              [(''count'', toString (length found))] d1
              in (Json 200 (request0, found), d2)))"

subsection \<open>Two reads at the same time\<close>

text \<open>
  The handler awaits three statements: the two \<open>SELECT\<close>s and the audit \<open>INSERT\<close>. The
  store executes a statement at a time, so two requests that are served together are an
  interleaving of their statements. A reader is the state of one call between statements.
\<close>

datatype reader_pc = AtSelectRequest | AtSelectRecords | AtLogAudit | Responded

record reader =
  pc :: reader_pc
  rd_fault :: "js_error option"
  rd_requestId :: string
  rd_user :: user
  rd_request :: "data_request list"
  rd_found :: "approved_row list"
  rd_reply :: "(data_request \<times> approved_row list) response option"

definition new_reader :: "js_error option \<Rightarrow> string \<Rightarrow> user \<Rightarrow> reader" where
  "new_reader fault requestId usr =
     \<lparr>pc = AtSelectRequest, rd_fault = fault, rd_requestId = requestId, rd_user = usr,
      rd_request = [], rd_found = [], rd_reply = None\<rparr>"

fun reader_step :: "reader \<Rightarrow> db \<Rightarrow> reader \<times> db" where
  "reader_step rd d =
     (case pc rd of
        AtSelectRequest \<Rightarrow>
          (let request = select_approved_request (rd_requestId rd) (u_id (rd_user rd)) d in
           if request = []
           then (rd\<lparr>pc := Responded, rd_reply := Some (Next (AppError ''Approved request not found'' 404))\<rparr>, d)
           else (rd\<lparr>pc := AtSelectRecords, rd_request := request\<rparr>, d))
      | AtSelectRecords \<Rightarrow>
          (let found = select_approved_records (dr_patient_id (hd (rd_request rd))) (rd_requestId rd) d in
           (rd\<lparr>pc := AtLogAudit, rd_found := found\<rparr>,
            console_write ConsoleLog (''Found '' @ toString (length found) @ '' approved records'') d))
      | AtLogAudit \<Rightarrow>
          (let (_, d') = logAudit (rd_fault rd) (u_id (rd_user rd)) ''view'' ''approved_records''
                           (rd_requestId rd) [(''count'', toString (length (rd_found rd)))] d
           in (rd\<lparr>pc := Responded, rd_reply := Some (Json 200 (hd (rd_request rd), rd_found rd))\<rparr>, d'))
      | Responded \<Rightarrow> (rd, d))"

text \<open>A schedule says whose statement runs next: \<open>True\<close> for the first reader.\<close>

fun run_schedule :: "bool list \<Rightarrow> reader \<times> reader \<times> db \<Rightarrow> reader \<times> reader \<times> db" where
  "run_schedule [] st = st"
| "run_schedule (True # sched) (a, b, d) = (let (a', d') = reader_step a d in run_schedule sched (a', b, d'))"
| "run_schedule (False # sched) (a, b, d) = (let (b', d') = reader_step b d in run_schedule sched (a, b', d'))"

text \<open>Reads one after the other, each with its own audit outcome and at its own time.\<close>

fun reads :: "(js_error option \<times> nat) list \<Rightarrow> string \<Rightarrow> user \<Rightarrow> db \<Rightarrow> db" where
  "reads [] requestId usr d = d"
| "reads ((fault, t) # rest) requestId usr d =
     reads rest requestId usr (snd (getApprovedRecords fault requestId usr (d\<lparr>clock := t\<rparr>)))"

text \<open>
  What a reader holds between statements, stated against the store \<open>d0\<close> in which the
  two readers started; the tables the read path reads; and the number of statements a
  reader still has to run.
\<close>

definition same_read_tables :: "db \<Rightarrow> db \<Rightarrow> bool" where
  "same_read_tables d0 d =
     (approved_records d = approved_records d0 \<and> data_requests d = data_requests d0 \<and>
      records d = records d0 \<and> patients d = patients d0 \<and> staff d = staff d0)"

definition reader_ok :: "db \<Rightarrow> reader \<Rightarrow> bool" where
  "reader_ok d0 rd =
     (case pc rd of
        AtSelectRequest \<Rightarrow> True
      | AtSelectRecords \<Rightarrow>
          rd_request rd = select_approved_request (rd_requestId rd) (u_id (rd_user rd)) d0 \<and>
          rd_request rd \<noteq> []
      | AtLogAudit \<Rightarrow>
          rd_request rd = select_approved_request (rd_requestId rd) (u_id (rd_user rd)) d0 \<and>
          rd_request rd \<noteq> [] \<and>
          rd_found rd = select_approved_records (dr_patient_id (hd (rd_request rd))) (rd_requestId rd) d0
      | Responded \<Rightarrow>
          rd_reply rd = Some (fst (getApprovedRecords (rd_fault rd) (rd_requestId rd) (rd_user rd) d0)))"

definition steps_left :: "reader \<Rightarrow> nat" where
  "steps_left rd =
     (case pc rd of AtSelectRequest \<Rightarrow> 3 | AtSelectRecords \<Rightarrow> 2 | AtLogAudit \<Rightarrow> 1 | Responded \<Rightarrow> 0)"

subsection \<open>The contract of the block cipher, and sample states\<close>

text \<open>
  What the development assumes of AES-256 under the configured key: a block of 16 bytes
  is encrypted to a block of 16 bytes, and decrypting that gives the block back.
\<close>

definition aes_contract :: "('a crypto_env_scheme) \<Rightarrow> bool" where
  "aes_contract env =
     (\<forall>b. length b = 16 \<longrightarrow>
          length (aes256_encrypt_block env (key env) b) = 16 \<and>
          aes256_decrypt_block env (key env) (aes256_encrypt_block env (key env) b) = b)"

text \<open>
  A stand-in for the block permutation, to have an environment in which every function
  can be run: a block is combined with the first 16 bytes of the key. No variable of the
  process environment is set, so the fallback key and IV are in use.
\<close>

definition stand_in_block :: "string \<Rightarrow> string \<Rightarrow> string" where
  "stand_in_block k b = xor_block b (take 16 k)"

definition fallback_env :: crypto_env where
  "fallback_env =
     \<lparr>env_ENCRYPTION_DISABLED = None, env_ENCRYPTION_KEY = None, env_ENCRYPTION_IV = None,
      aes256_encrypt_block = stand_in_block, aes256_decrypt_block = stand_in_block\<rparr>"

text \<open>
  The same environment with a configured key that holds one letter outside ASCII (the
  third code unit, 233): its first 32 code units are 33 bytes.
\<close>

definition accented_key_env :: crypto_env where
  "accented_key_env =
     fallback_env\<lparr>env_ENCRYPTION_KEY := Some (units ''cl'' @ 233 # units ''_de_chiffrement_de_32_caracteres'')\<rparr>"

text \<open>
  A store with one patient, one company, one doctor, an approved allocation, an approved
  data request, one record and its row in \<open>approved_records\<close>: at most one access, none
  used, access granted until time 100.
\<close>

definition insurer :: user where
  "insurer = \<lparr>u_id = ''IN001'', u_name = ''Ceylon Assurance''\<rparr>"

definition admin :: user where
  "admin = \<lparr>u_id = ''ST001'', u_name = ''N. Silva''\<rparr>"

definition allocation1 :: insurance_allocation where
  "allocation1 =
     \<lparr>ia_id = 1, ia_company_id = ''IN001'', ia_patient_id = ''PT001'', ia_status = 1,
      ia_notes = None, ia_created_at = 10\<rparr>"

definition request1 :: data_request where
  "request1 =
     \<lparr>dr_request_id = ''REQ000001'', dr_company_id = ''IN001'', dr_patient_id = ''PT001'',
      dr_purpose = ''claim review'', dr_date_range_start = None, dr_date_range_end = None,
      dr_status = 1, dr_request_date = 20, dr_response_date = Some 30,
      dr_response_notes = None, dr_created_by = ''IN001'', dr_request_details = ''{}''\<rparr>"

definition record1 :: record_row where
  "record1 = \<lparr>record_id = ''REC001'', doc_id = ''ST001'', patient_id = ''PT001'', description = ''flu''\<rparr>"

definition grant1 :: approved_record where
  "grant1 =
     \<lparr>ar_request_id = ''REQ000001'', ar_record_id = ''REC001'', ar_approved_by = ''ST001'',
      ar_access_granted_until = Some 100, ar_access_count = 0, ar_max_access_count = 1\<rparr>"

definition sample_db :: db where
  "sample_db =
     \<lparr>insurance_allocations = [allocation1],
      data_requests = [request1],
      approved_records = [grant1],
      records = [record1],
      record_requests = [],
      patients = [\<lparr>p_patient_id = ''PT001'', p_name = ''A. Perera''\<rparr>],
      insurance_companies = [\<lparr>ic_company_id = ''IN001'', ic_company_name = ''Ceylon Assurance''\<rparr>],
      staff = [\<lparr>s_staff_id = ''ST001'', s_first_name = ''N.'', s_last_name = ''Silva''\<rparr>],
      audit_logs = [],
      clock = 50,
      console = []\<rparr>"

text \<open>The sample store with the request rejected, and with no allocation at all.\<close>

definition rejected_db :: db where
  "rejected_db = sample_db\<lparr>data_requests := [request1\<lparr>dr_status := 2\<rparr>]\<rparr>"

definition unconnected_db :: db where
  "unconnected_db = sample_db\<lparr>insurance_allocations := []\<rparr>"

definition body1 :: request_body where
  "body1 =
     \<lparr>rb_company_id = ''IN001'', rb_patient_id = ''PT001'', rb_purpose = ''claim review'',
      rb_date_range_start = None, rb_date_range_end = None, rb_request_details = ''{}''\<rparr>"

text \<open>
  The sample store at a time as \<open>Date.now()\<close> gives it, in milliseconds, and the store a
  first submission leaves, 1000000 milliseconds later.
\<close>

definition submission_db :: db where
  "submission_db = sample_db\<lparr>clock := 1700000000050\<rparr>"

definition later_db :: db where
  "later_db =
     (snd (insuranceController_createDataRequest None body1 insurer submission_db))\<lparr>clock := 1700001000050\<rparr>"

section \<open>Properties of the cipher\<close>

subsection \<open>Hex, CBC and padding\<close>

lemma hex_val_hex_digit: "k < 16 \<Longrightarrow> hex_val (hex_digit k) = Some k"
proof -
  assume "k < 16"
  then have "k \<in> {0,1,2,3,4,5,6,7,8,9,10,11,12,13,14,15}" by (simp; arith)
  then show ?thesis
    by (auto simp: hex_val_def hex_digit_def)
qed

lemma is_hex_char_hex_digit: "k < 16 \<Longrightarrow> is_hex_char (hex_digit k)"
  by (simp add: is_hex_char_def hex_val_hex_digit)

lemma hex_decode_encode: "hex_decode (hex_encode bs) = bs"
proof (induction bs)
  case Nil show ?case by simp
next
  case (Cons b bs)
  have lt: "(of_char b :: nat) div 16 < 16" using nat_of_char_less_256 [of b] by arith
  have "char_of (16 * ((of_char b :: nat) div 16) + of_char b mod 16) = b" by simp
  with Cons lt show ?case by (simp add: hex_val_hex_digit)
qed

lemma hex_encode_is_hex: "list_all is_hex_char (hex_encode bs)"
proof (induction bs)
  case Nil show ?case by simp
next
  case (Cons b bs)
  have lt: "(of_char b :: nat) div 16 < 16" using nat_of_char_less_256 [of b] by arith
  with Cons show ?case by (simp add: is_hex_char_hex_digit)
qed

lemma length_hex_encode: "length (hex_encode bs) = 2 * length bs"
  by (induction bs) auto

lemma xor_byte_cancel: "xor_byte (xor_byte a b) b = a"
  by (cases a; cases b) auto

lemma xor_block_cancel: "length p = length q \<Longrightarrow> xor_block (xor_block p q) q = p"
  unfolding xor_block_def
  by (induction p q rule: list_induct2) (auto simp: xor_byte_cancel)

lemma length_xor_block: "length (xor_block a b) = min (length a) (length b)"
  by (simp add: xor_block_def)

lemma createCipheriv_lengths:
  "createCipheriv env = Inr () \<Longrightarrow> length (key env) = 32 \<and> length (iv env) = 16"
  by (simp add: createCipheriv_def split: if_splits)

lemma createDecipheriv_eq: "createDecipheriv env = createCipheriv env"
  by (simp add: createDecipheriv_def createCipheriv_def)


lemma utf8_encode_ascii: "\<forall>u \<in> set us. u < 128 \<Longrightarrow> utf8_encode us = map char_of us"
  by (induction us) auto

text \<open>A key and an IV of ASCII characters always come to 32 and 16 bytes.\<close>

lemma padEnd_slice_ascii:
  assumes "\<forall>u \<in> set s. u < 128"
  shows "length (utf8_encode (take n (padEnd n s))) = n"
proof -
  have "\<forall>u \<in> set (padEnd n s). u < 128" using assms by (auto simp: padEnd_def)
  then have "\<forall>u \<in> set (take n (padEnd n s)). u < 128" by (auto dest: in_set_takeD)
  then have "utf8_encode (take n (padEnd n s)) = map char_of (take n (padEnd n s))"
    by (rule utf8_encode_ascii)
  then show ?thesis by (simp add: padEnd_def)
qed

lemma createCipheriv_ascii:
  assumes "\<forall>u \<in> set (ENCRYPTION_KEY env). u < 128" "\<forall>u \<in> set (ENCRYPTION_IV env). u < 128"
  shows "createCipheriv env = Inr ()"
  by (simp add: createCipheriv_def key_def iv_def padEnd_slice_ascii [OF assms(1)] padEnd_slice_ascii [OF assms(2)])

lemma key_fallback: "key fallback_env = ''your_fallback_32_character_key_h''"
  by (simp add: key_def padEnd_def ENCRYPTION_KEY_def or_default_def units_def fallback_env_def
        char_of_eq_iff)

lemma iv_fallback: "iv fallback_env = ''your_16_char_iv_''"
  by (simp add: iv_def padEnd_def ENCRYPTION_IV_def or_default_def units_def fallback_env_def
        char_of_eq_iff)

lemma createCipheriv_fallback: "createCipheriv fallback_env = Inr ()"
  by (simp add: createCipheriv_def key_fallback iv_fallback)

lemma createDecipheriv_fallback: "createDecipheriv fallback_env = Inr ()"
  by (simp add: createDecipheriv_eq createCipheriv_fallback)

lemma fallback_enabled: "\<not> ENCRYPTION_DISABLED fallback_env"
  by (simp add: ENCRYPTION_DISABLED_def fallback_env_def)

lemma cbc_roundtrip:
  assumes "\<forall>b. length b = 16 \<longrightarrow> length (E b) = 16 \<and> D (E b) = b"
  shows "length prev = 16 \<Longrightarrow> \<forall>p \<in> set ps. length p = 16 \<Longrightarrow>
         cbc_decrypt D prev (cbc_encrypt E prev ps) = ps"
proof (induction ps arbitrary: prev)
  case Nil show ?case by simp
next
  case (Cons p ps)
  have lp: "length p = 16" using Cons.prems by simp
  then have lx: "length (xor_block p prev) = 16" using Cons.prems by (simp add: length_xor_block)
  from assms lx have le: "length (E (xor_block p prev)) = 16" and de: "D (E (xor_block p prev)) = xor_block p prev"
    by blast+
  have "xor_block (xor_block p prev) prev = p" using lp Cons.prems by (simp add: xor_block_cancel)
  moreover have "cbc_decrypt D (E (xor_block p prev)) (cbc_encrypt E (E (xor_block p prev)) ps) = ps"
    using Cons.IH [OF le] Cons.prems by simp
  ultimately show ?case by (simp add: Let_def de)
qed

lemma cbc_encrypt_lengths:
  assumes "\<forall>b. length b = 16 \<longrightarrow> length (E b) = 16"
  shows "length prev = 16 \<Longrightarrow> \<forall>p \<in> set ps. length p = 16 \<Longrightarrow>
         (\<forall>c \<in> set (cbc_encrypt E prev ps). length c = 16) \<and> length (cbc_encrypt E prev ps) = length ps"
proof (induction ps arbitrary: prev)
  case Nil show ?case by simp
next
  case (Cons p ps)
  have lx: "length (xor_block p prev) = 16" using Cons.prems by (simp add: length_xor_block)
  with assms have le: "length (E (xor_block p prev)) = 16" by blast
  from Cons.IH [OF le] Cons.prems le show ?case by (simp add: Let_def)
qed

lemma concat_blocks: "length bs = 16 * n \<Longrightarrow> concat (blocks n bs) = bs"
proof (induction n arbitrary: bs)
  case 0 then show ?case by simp
next
  case (Suc n)
  then have "length (drop 16 bs) = 16 * n" by simp
  with Suc.IH have "concat (blocks n (drop 16 bs)) = drop 16 bs" by blast
  then show ?case by simp
qed

lemma blocks_lengths: "length bs = 16 * n \<Longrightarrow> \<forall>b \<in> set (blocks n bs). length b = 16"
proof (induction n arbitrary: bs)
  case 0 then show ?case by simp
next
  case (Suc n)
  then have "length (drop 16 bs) = 16 * n" by simp
  with Suc.IH have "\<forall>b \<in> set (blocks n (drop 16 bs)). length b = 16" by blast
  with Suc.prems show ?case by simp
qed

lemma length_blocks: "length (blocks n bs) = n"
  by (induction n arbitrary: bs) auto

lemma blocks_concat: "\<forall>b \<in> set bl. length b = 16 \<Longrightarrow> blocks (length bl) (concat bl) = bl"
  by (induction bl) auto

lemma length_concat_16: "\<forall>b \<in> set bl. length b = 16 \<Longrightarrow> length (concat bl) = 16 * length bl"
  by (induction bl) auto

lemma pad_length: "\<exists>k. length (pkcs7_pad v) = 16 * Suc k"
proof -
  let ?n = "length v"
  have "length (pkcs7_pad v) = ?n + (16 - ?n mod 16)" by (simp add: pkcs7_pad_def Let_def)
  also have "\<dots> = 16 * Suc (?n div 16)" 
    using mod_less_divisor [of 16 ?n] div_mult_mod_eq [of ?n 16] by arith
  finally show ?thesis by blast
qed

lemma butlast_take_last:
  "bl \<noteq> [] \<Longrightarrow> \<forall>b \<in> set bl. length b = 16 \<Longrightarrow> m \<le> 16 \<Longrightarrow>
   concat (butlast bl) @ take m (last bl) = take (16 * (length bl - 1) + m) (concat bl)"
proof (induction bl)
  case Nil then show ?case by simp
next
  case (Cons b bl)
  show ?case
  proof (cases "bl = []")
    case True then show ?thesis by simp
  next
    case False
    with Cons have "concat (butlast bl) @ take m (last bl) = take (16 * (length bl - 1) + m) (concat bl)" by simp
    moreover have "length bl \<ge> 1" using False by (cases bl) auto
    ultimately show ?thesis using False Cons.prems by (simp add: algebra_simps)
  qed
qed

lemma last_blocks: "last (blocks (Suc n) bs) = take 16 (drop (16 * n) bs)"
proof (induction n arbitrary: bs)
  case 0 show ?case by simp
next
  case (Suc n)
  have "last (blocks (Suc (Suc n)) bs) = last (blocks (Suc n) (drop 16 bs))" by simp
  also have "\<dots> = take 16 (drop (16 * n) (drop 16 bs))" by (rule Suc.IH)
  also have "\<dots> = take 16 (drop (16 * Suc n) bs)" by (simp add: add.commute)
  finally show ?case .
qed

lemma pkcs7_unpad_pad_block:
  assumes "0 < p" "p \<le> 16"
  shows "pkcs7_unpad (xs @ replicate p (char_of p)) = Inr xs"
proof -
  let ?blk = "xs @ replicate p (char_of p)"
  have l: "last ?blk = char_of p" using assms by simp
  have v: "(of_char (char_of p :: char) :: nat) = p" using assms by simp
  have ne: "?blk \<noteq> []" using assms by simp
  have d: "drop (length ?blk - p) ?blk = replicate p (char_of p)" by simp
  have t: "take (length ?blk - p) ?blk = xs" by simp
  have a: "list_all (\<lambda>c. c = char_of p) (replicate p (char_of p :: char))"
    by (simp add: list_all_iff)
  show ?thesis
    unfolding pkcs7_unpad_def Let_def l v d t
    using assms ne a by simp
qed

declare blocks.simps [simp del]

lemma decrypt_encrypt:
  assumes "aes_contract env" and ok: "createCipheriv env = Inr () \<or> ENCRYPTION_DISABLED env"
  shows "fst (decrypt env (fst (encrypt env v))) = v"
proof (cases "v = [] \<or> ENCRYPTION_DISABLED env")
  case True
  then show ?thesis by (auto simp: encrypt_def decrypt_def)
next
  case False
  with ok have cok: "createCipheriv env = Inr ()" by blast
  have length_iv: "length (iv env) = 16" using createCipheriv_lengths [OF cok] by simp
  let ?E = "aes256_encrypt_block env (key env)"
  let ?D = "aes256_decrypt_block env (key env)"
  let ?p = "16 - length v mod 16"
  let ?k = "length v div 16"
  let ?padded = "pkcs7_pad v"
  let ?C = "cbc_encrypt ?E (iv env) (blocks (Suc ?k) ?padded)"
  let ?c = "cipher_update_final env v"
  have ED: "\<forall>b. length b = 16 \<longrightarrow> length (?E b) = 16 \<and> ?D (?E b) = b"
    using assms by (simp add: aes_contract_def)
  then have E: "\<forall>b. length b = 16 \<longrightarrow> length (?E b) = 16" by blast
  have p: "0 < ?p" "?p \<le> 16" by simp_all
  have lv: "length v = 16 * ?k + (16 - ?p)"
    using mod_less_divisor [of 16 "length v"] div_mult_mod_eq [of "length v" 16] by arith
  have "length ?padded = length v + ?p" by (simp add: pkcs7_pad_def Let_def)
  then have lpad: "length ?padded = 16 * Suc ?k"
    using mod_less_divisor [of 16 "length v"] div_mult_mod_eq [of "length v" 16] by arith
  then have kdiv: "length ?padded div 16 = Suc ?k" by simp
  have c: "?c = hex_encode (concat ?C)"
    by (simp add: cipher_update_final_def Let_def kdiv)
  have bl16: "\<forall>b \<in> set (blocks (Suc ?k) ?padded). length b = 16"
    using blocks_lengths [OF lpad] .
  have CC: "(\<forall>c \<in> set ?C. length c = 16) \<and> length ?C = length (blocks (Suc ?k) ?padded)"
    by (rule cbc_encrypt_lengths [OF E length_iv bl16])
  then have C16: "\<forall>b \<in> set ?C. length b = 16" by blast
  have lC: "length ?C = Suc ?k" using CC by (simp only: length_blocks)
  have dec: "hex_decode ?c = concat ?C" by (simp add: c hex_decode_encode)
  have ldec: "length (hex_decode ?c) = 16 * Suc ?k"
    using length_concat_16 [OF C16] lC dec by (simp)
  have hex: "hex_string ?c"
  proof -
    have "length ?c = 2 * (16 * Suc ?k)" using ldec dec by (simp add: c length_hex_encode)
    then have "?c \<noteq> []" by auto
    then show ?thesis by (simp add: hex_string_def c hex_encode_is_hex)
  qed
  have P: "decipher_blocks env ?c = blocks (Suc ?k) ?padded"
  proof -
    have "blocks (length (hex_decode ?c) div 16) (hex_decode ?c) = ?C"
      using blocks_concat [OF C16] lC ldec dec by (simp)
    then show ?thesis
      using cbc_roundtrip [OF ED length_iv bl16] by (simp add: decipher_blocks_def Let_def)
  qed
  let ?P = "blocks (Suc ?k) ?padded"
  have lastP: "last ?P = drop (16 * ?k) v @ replicate ?p (char_of ?p)"
  proof -
    have "last ?P = take 16 (drop (16 * ?k) ?padded)" by (rule last_blocks)
    also have "drop (16 * ?k) ?padded = drop (16 * ?k) v @ replicate ?p (char_of ?p)"
      using lv by (simp add: pkcs7_pad_def Let_def)
    also have "take 16 \<dots> = \<dots>"
    proof -
      have "length (drop (16 * ?k) v @ replicate ?p (char_of ?p :: char)) = 16"
        using mod_less_divisor [of 16 "length v"] div_mult_mod_eq [of "length v" 16]
        by (simp only: length_append length_drop length_replicate)
      then have "length (drop (16 * ?k) v @ replicate ?p (char_of ?p :: char)) \<le> 16"
        by (simp only: order_refl)
      then show ?thesis by (rule take_all)
    qed
    finally show ?thesis .
  qed
  have fin: "decipher_final env ?c = Inr (drop (16 * ?k) v)"
    using ldec pkcs7_unpad_pad_block [OF p, of "drop (16 * ?k) v"]
    by (simp add: decipher_final_def Let_def P lastP)
  have ev: "even (length ?c)" by (simp add: c length_hex_encode)
  have upd: "decipher_update env ?c = Inr (concat (butlast ?P))"
    using ldec ev by (simp add: decipher_update_def Let_def P)
  have Pne: "?P \<noteq> []" by (simp add: blocks.simps)
  have m: "16 - ?p \<le> (16::nat)" by simp
  have j1: "concat (butlast ?P) @ take (16 - ?p) (last ?P) = take (16 * (length ?P - 1) + (16 - ?p)) (concat ?P)"
    using butlast_take_last [OF Pne bl16 m] .
  have j2: "take (16 - ?p) (last ?P) = drop (16 * ?k) v"
    by (simp add: lastP minus_mult_div_eq_mod)
  have j3: "concat ?P = ?padded" using concat_blocks [OF lpad] .
  have j4: "take (16 * (length ?P - 1) + (16 - ?p)) ?padded = v"
    using lv by (simp add: length_blocks pkcs7_pad_def Let_def)
  have join: "concat (butlast ?P) @ drop (16 * ?k) v = v"
    using j1 unfolding j2 j3 j4 .
  have enc: "fst (encrypt env v) = ?c"
    using False by (simp add: encrypt_def cok)
  have ne: "?c \<noteq> []" using hex by (simp add: hex_string_def)
  show ?thesis
    using False hex ne fin upd join
    by (simp add: enc decrypt_def createDecipheriv_eq cok Let_def)
qed


lemma decrypt_bad_key:
  assumes "\<not> ENCRYPTION_DISABLED env" "hex_string t" "createDecipheriv env = Inl e"
  shows "decrypt env t = (''[Encrypted content]'', [(ConsoleError, ''Decryption error:'')])"
  using assms by (simp add: decrypt_def hex_string_def)

lemma decrypt_update_failure:
  assumes "\<not> ENCRYPTION_DISABLED env" "hex_string t" "createDecipheriv env = Inr ()"
    "decipher_update env t = Inl e"
  shows "decrypt env t = (''[Encrypted content]'', [(ConsoleError, ''Decryption error:'')])"
  using assms by (simp add: decrypt_def hex_string_def)

lemma decrypt_final_failure:
  assumes "\<not> ENCRYPTION_DISABLED env" "hex_string t" "createDecipheriv env = Inr ()"
    "decipher_update env t = Inr d" "decipher_final env t = Inl e"
  shows "decrypt env t = (''[Encrypted content]'', [(ConsoleError, ''Error in final decryption step:'')])"
  using assms by (simp add: decrypt_def hex_string_def)

lemma decrypt_success:
  assumes "\<not> ENCRYPTION_DISABLED env" "hex_string t" "createDecipheriv env = Inr ()"
    "decipher_update env t = Inr d" "decipher_final env t = Inr s"
  shows "decrypt env t = (d @ s, [])"
  using assms by (simp add: decrypt_def hex_string_def)

lemma decipher_update_cases:
  "decipher_update env t = Inl (TypeError ''ERR_INVALID_ARG_VALUE'') \<and> odd (length t) \<or>
   (\<exists>d. decipher_update env t = Inr d) \<and> even (length t)"
  by (simp add: decipher_update_def Let_def)

lemma penicillin_ciphertext:
  "fst (encrypt fallback_env ''penicillin'') = ''70656e69633e3b5f666406173230436b''"
proof -
  have block: "aes256_encrypt_block fallback_env = stand_in_block" by (simp add: fallback_env_def)
  have rep6: "replicate 6 (char_of (6::nat)) = replicate 6 (CHR 0x06)" by (simp add: char_of_eq_iff)
  have rep: "replicate 6 (CHR 0x06) = [CHR 0x06, CHR 0x06, CHR 0x06, CHR 0x06, CHR 0x06, CHR 0x06]"
    by (simp add: numeral_eq_Suc)
  have "cipher_update_final fallback_env ''penicillin'' =
        hex_encode (xor_block (xor_block (''penicillin'' @ replicate 6 (CHR 0x06)) ''your_16_char_iv_'')
                      ''your_fallback_32'')"
    by (simp add: cipher_update_final_def pkcs7_pad_def Let_def blocks.simps key_fallback iv_fallback
          block stand_in_block_def rep6)
  also have "\<dots> = ''70656e69633e3b5f666406173230436b''"
    unfolding rep by (simp add: xor_block_def hex_digit_def char_of_eq_iff)
  finally show ?thesis
    by (simp add: encrypt_def fallback_enabled createCipheriv_fallback)
qed


lemma fallback_contract: "aes_contract fallback_env"
proof -
  have k: "length (take 16 (key fallback_env)) = 16" by (simp add: key_fallback)
  have "\<And>b. length b = 16 \<Longrightarrow> length (xor_block b (take 16 (key fallback_env))) = 16 \<and>
          xor_block (xor_block b (take 16 (key fallback_env))) (take 16 (key fallback_env)) = b"
    using k by (simp add: length_xor_block xor_block_cancel)
  then show ?thesis
    by (simp add: aes_contract_def fallback_env_def stand_in_block_def)
qed


lemma key_accented: "length (key accented_key_env) = 33"
  by (simp add: key_def padEnd_def ENCRYPTION_KEY_def or_default_def units_def fallback_env_def
        accented_key_env_def)

lemma createCipheriv_accented: "createCipheriv accented_key_env = Inl (Error ''Invalid key length'')"
  by (simp add: createCipheriv_def key_accented)

lemma accented_enabled: "\<not> ENCRYPTION_DISABLED accented_key_env"
  by (simp add: ENCRYPTION_DISABLED_def fallback_env_def accented_key_env_def)


subsection \<open>Round trip and legacy plaintext\<close>




subsection \<open>Plaintext that looks like ciphertext\<close>

lemma length_hex_decode: "2 * length (hex_decode s) \<le> length s"
  by (induction s rule: hex_decode.induct) (auto split: option.splits)

lemma cbc_decrypt_le16:
  "length prev \<le> 16 \<Longrightarrow> \<forall>c \<in> set cs. length c \<le> 16 \<Longrightarrow>
   \<forall>b \<in> set (cbc_decrypt D prev cs). length b \<le> 16"
  by (induction cs arbitrary: prev) (auto simp: length_xor_block)

lemma length_cbc_decrypt: "length (cbc_decrypt D prev cs) = length cs"
  by (induction cs arbitrary: prev) auto

lemma blocks_le16: "\<forall>b \<in> set (blocks n bs). length b \<le> 16"
  by (induction n arbitrary: bs) (auto simp: blocks.simps)

lemma length_concat_le16: "\<forall>b \<in> set bl. length b \<le> 16 \<Longrightarrow> length (concat bl) \<le> 16 * length bl"
  by (induction bl) auto

lemma pkcs7_unpad_shorter: "pkcs7_unpad blk = Inr s \<Longrightarrow> length s < length blk"
  by (auto simp: pkcs7_unpad_def Let_def split: if_splits)

lemma decipher_blocks_le16:
  "length (iv env) = 16 \<Longrightarrow> \<forall>b \<in> set (decipher_blocks env t). length b \<le> 16"
  unfolding decipher_blocks_def Let_def
  by (rule cbc_decrypt_le16) (simp_all add: blocks_le16)

lemma length_decipher_blocks: "length (decipher_blocks env t) = length (hex_decode t) div 16"
  by (simp add: decipher_blocks_def Let_def length_cbc_decrypt length_blocks)

lemma deciphered_shorter:
  assumes fin: "decipher_final env t = Inr s" and upd: "decipher_update env t = Inr d"
    and liv: "length (iv env) = 16"
  shows "length (d @ s) < length t"
proof -
  let ?n = "length (hex_decode t)"
  let ?P = "decipher_blocks env t"
  from fin have n: "?n \<noteq> 0" "?n mod 16 = 0" and un: "pkcs7_unpad (last ?P) = Inr s"
    by (auto simp: decipher_final_def Let_def split: if_splits)
  have lP: "length ?P = ?n div 16" by (rule length_decipher_blocks)
  with n have Pne: "?P \<noteq> []" by auto
  have le: "\<forall>b \<in> set ?P. length b \<le> 16" by (rule decipher_blocks_le16 [OF liv])
  have "\<forall>b \<in> set (butlast ?P). length b \<le> 16" using le by (auto dest: in_set_butlastD)
  then have a: "length (concat (butlast ?P)) \<le> 16 * (length ?P - 1)"
    using length_concat_le16 [of "butlast ?P"] by simp
  have "last ?P \<in> set ?P" using Pne by simp
  with le have "length (last ?P) \<le> 16" by blast
  with pkcs7_unpad_shorter [OF un] have b: "length s < 16" by simp
  have upd: "d = concat (butlast ?P)"
    using n upd by (simp add: decipher_update_def Let_def split: if_splits)
  have "length ?P \<ge> 1" using Pne by (cases ?P) auto
  with a b have "length (concat (butlast ?P)) + length s < 16 * length ?P" by arith
  also have "\<dots> \<le> ?n" using lP by simp
  also have "\<dots> \<le> length t" using length_hex_decode [of t] by simp
  finally show ?thesis by (simp add: upd)
qed

text \<open>
  C10. With encryption enabled, every value of 32 or more hex digits is classified as
  ciphertext by \<open>isLikelyEncrypted\<close>, and \<open>decrypt\<close> does not return it unchanged: it
  is deciphered, and what comes back is the placeholder or a text shorter than the value.
  This holds for every block cipher, so in particular for a legacy plaintext of that shape.
\<close>

theorem hex_plaintext_is_deciphered:
  assumes "\<not> ENCRYPTION_DISABLED env" "32 \<le> length p" "list_all is_hex_char p"
  shows "isLikelyEncrypted p \<and> fst (decrypt env p) \<noteq> p \<and>
         (fst (decrypt env p) = ''[Encrypted content]'' \<or> length (fst (decrypt env p)) < length p)"
proof -
  from assms have ne: "p \<noteq> []" by auto
  with assms have l: "isLikelyEncrypted p" by (simp add: isLikelyEncrypted_def)
  have hs: "hex_string p" using ne assms by (simp add: hex_string_def)
  have nb: "\<not> is_hex_char CHR ''[''" by (simp add: is_hex_char_def hex_val_def)
  have sent: "p \<noteq> ''[Encrypted content]''"
  proof
    assume "p = ''[Encrypted content]''"
    with assms(3) have "is_hex_char CHR ''[''" by simp
    with nb show False by simp
  qed
  have dich: "fst (decrypt env p) = ''[Encrypted content]'' \<or> length (fst (decrypt env p)) < length p"
  proof (cases "createDecipheriv env")
    case (Inl e)
    from decrypt_bad_key [OF assms(1) hs Inl] show ?thesis by simp
  next
    case created: (Inr u)
    then have ok: "createDecipheriv env = Inr ()" by simp
    then have liv: "length (iv env) = 16"
      using createCipheriv_lengths [of env] by (simp add: createDecipheriv_eq)
    show ?thesis
    proof (cases "decipher_update env p")
      case (Inl e)
      from decrypt_update_failure [OF assms(1) hs ok Inl] show ?thesis by simp
    next
      case updated: (Inr d)
      show ?thesis
      proof (cases "decipher_final env p")
        case (Inl e)
        from decrypt_final_failure [OF assms(1) hs ok updated Inl] show ?thesis by simp
      next
        case (Inr s)
        from decrypt_success [OF assms(1) hs ok updated Inr] deciphered_shorter [OF Inr updated liv]
        show ?thesis by simp
      qed
    qed
  qed
  from dich sent have "fst (decrypt env p) \<noteq> p" by auto
  with l dich show ?thesis by blast
qed

theorem hex_plaintext_is_deciphered_witness:
  "\<not> ENCRYPTION_DISABLED fallback_env \<and> 32 \<le> length ''0123456789abcdef0123456789ABCDEF'' \<and>
   list_all is_hex_char ''0123456789abcdef0123456789ABCDEF'' \<and>
   isLikelyEncrypted ''0123456789abcdef0123456789ABCDEF'' \<and>
   fst (decrypt fallback_env ''0123456789abcdef0123456789ABCDEF'') \<noteq> ''0123456789abcdef0123456789ABCDEF''"
proof -
  have a: "\<not> ENCRYPTION_DISABLED fallback_env" by (rule fallback_enabled)
  have b: "32 \<le> length ''0123456789abcdef0123456789ABCDEF''" by simp
  have c: "list_all is_hex_char ''0123456789abcdef0123456789ABCDEF''"
    by (simp add: is_hex_char_def hex_val_def)
  show ?thesis using hex_plaintext_is_deciphered [OF a b c] a b c by blast
qed

subsection \<open>Failure of decryption\<close>

lemma getAllRecords_rows:
  "fst (getAllRecords env rows) =
     map (\<lambda>r. if isLikelyEncrypted (description r)
               then r\<lparr>description := fst (decrypt env (description r))\<rparr> else r) rows"
  by (auto simp: getAllRecords_def getAllRecords_row_def isLikelyEncrypted_def split: prod.splits)

lemma getAllRecords_console:
  "snd (getAllRecords env rows) =
     concat (map (\<lambda>r. if isLikelyEncrypted (description r)
                       then snd (decrypt env (description r)) else []) rows)"
proof -
  have "(\<lambda>r. snd (getAllRecords_row env r)) =
        (\<lambda>r. if isLikelyEncrypted (description r) then snd (decrypt env (description r)) else [])"
    by (auto simp: getAllRecords_row_def isLikelyEncrypted_def split: prod.splits)
  then show ?thesis by (simp add: getAllRecords_def)
qed

text \<open>
  C8, as amended. \<open>decrypt\<close> returns a string on every input; no exception leaves it. On
  a string of hex digits, with encryption enabled, it fails in one of three places, and
  each time returns the fixed string \<open>[Encrypted content]\<close> and writes one line to
  \<open>console.error\<close>: \<open>Decryption error:\<close> when \<open>createDecipheriv\<close> throws (a key or an IV
  of the wrong length in bytes) or \<open>update\<close> throws (an odd number of digits), and
  \<open>Error in final decryption step:\<close> when \<open>final\<close> throws. When nothing throws it returns
  the deciphered text and writes nothing. \<open>getAllRecords\<close> returns every row in its place,
  unchanged except for the description of a row that \<open>isLikelyEncrypted\<close> accepts, which is
  what \<open>decrypt\<close> returns for it, the placeholder on a failure; its console lines are
  those of \<open>decrypt\<close> on these rows.
\<close>

theorem decrypt_failure_placeholder:
  assumes "\<not> ENCRYPTION_DISABLED env" "hex_string t"
  shows "(createDecipheriv env = Inl e1 \<or> decipher_update env t = Inl e2 \<longrightarrow>
            decrypt env t = (''[Encrypted content]'', [(ConsoleError, ''Decryption error:'')])) \<and>
         (odd (length t) \<longrightarrow> decipher_update env t = Inl (TypeError ''ERR_INVALID_ARG_VALUE'')) \<and>
         (createDecipheriv env = Inr () \<and> decipher_update env t = Inr d \<and> decipher_final env t = Inl e3 \<longrightarrow>
            decrypt env t = (''[Encrypted content]'', [(ConsoleError, ''Error in final decryption step:'')])) \<and>
         (createDecipheriv env = Inr () \<and> decipher_update env t = Inr d \<and> decipher_final env t = Inr s \<longrightarrow>
            decrypt env t = (d @ s, [])) \<and>
         fst (getAllRecords env rows) =
           map (\<lambda>r. if isLikelyEncrypted (description r)
                     then r\<lparr>description := fst (decrypt env (description r))\<rparr> else r) rows \<and>
         snd (getAllRecords env rows) =
           concat (map (\<lambda>r. if isLikelyEncrypted (description r)
                             then snd (decrypt env (description r)) else []) rows)"
proof (intro conjI impI)
  assume h: "createDecipheriv env = Inl e1 \<or> decipher_update env t = Inl e2"
  show "decrypt env t = (''[Encrypted content]'', [(ConsoleError, ''Decryption error:'')])"
  proof (cases "createDecipheriv env")
    case (Inl e)
    from decrypt_bad_key [OF assms Inl] show ?thesis .
  next
    case (Inr u)
    then have ok: "createDecipheriv env = Inr ()" by simp
    with h have "decipher_update env t = Inl e2" by simp
    from decrypt_update_failure [OF assms ok this] show ?thesis .
  qed
next
  assume "odd (length t)"
  then show "decipher_update env t = Inl (TypeError ''ERR_INVALID_ARG_VALUE'')"
    by (simp add: decipher_update_def)
next
  assume "createDecipheriv env = Inr () \<and> decipher_update env t = Inr d \<and> decipher_final env t = Inl e3"
  then show "decrypt env t = (''[Encrypted content]'', [(ConsoleError, ''Error in final decryption step:'')])"
    using decrypt_final_failure [OF assms] by blast
next
  assume "createDecipheriv env = Inr () \<and> decipher_update env t = Inr d \<and> decipher_final env t = Inr s"
  then show "decrypt env t = (d @ s, [])"
    using decrypt_success [OF assms] by blast
next
  show "fst (getAllRecords env rows) =
          map (\<lambda>r. if isLikelyEncrypted (description r)
                    then r\<lparr>description := fst (decrypt env (description r))\<rparr> else r) rows"
    by (rule getAllRecords_rows)
next
  show "snd (getAllRecords env rows) =
          concat (map (\<lambda>r. if isLikelyEncrypted (description r)
                            then snd (decrypt env (description r)) else []) rows)"
    by (rule getAllRecords_console)
qed

text \<open>
  The three failures on concrete rows: a ciphertext with one digit too many (\<open>update\<close>
  throws), one with a byte too many (\<open>final\<close> throws), and a ciphertext read under a key
  of 33 bytes (\<open>createDecipheriv\<close> throws). The list query returns all rows each time.
\<close>

theorem decrypt_failure_placeholder_witness:
  "\<not> ENCRYPTION_DISABLED fallback_env \<and> createDecipheriv fallback_env = Inr () \<and>
   hex_string ''70656e69633e3b5f666406173230436b0'' \<and>
   odd (length ''70656e69633e3b5f666406173230436b0'') \<and>
   decipher_update fallback_env ''70656e69633e3b5f666406173230436b0'' = Inl (TypeError ''ERR_INVALID_ARG_VALUE'') \<and>
   decrypt fallback_env ''70656e69633e3b5f666406173230436b0'' =
     (''[Encrypted content]'', [(ConsoleError, ''Decryption error:'')]) \<and>
   hex_string ''70656e69633e3b5f666406173230436b00'' \<and>
   (\<exists>d. decipher_update fallback_env ''70656e69633e3b5f666406173230436b00'' = Inr d) \<and>
   decipher_final fallback_env ''70656e69633e3b5f666406173230436b00'' = Inl (Error ''wrong final block length'') \<and>
   decrypt fallback_env ''70656e69633e3b5f666406173230436b00'' =
     (''[Encrypted content]'', [(ConsoleError, ''Error in final decryption step:'')]) \<and>
   \<not> ENCRYPTION_DISABLED accented_key_env \<and>
   createDecipheriv accented_key_env = Inl (Error ''Invalid key length'') \<and>
   decrypt accented_key_env ''70656e69633e3b5f666406173230436b'' =
     (''[Encrypted content]'', [(ConsoleError, ''Decryption error:'')]) \<and>
   fst (getAllRecords fallback_env
          [record1\<lparr>description := ''70656e69633e3b5f666406173230436b0''\<rparr>,
           record1\<lparr>record_id := ''MR002'', description := ''70656e69633e3b5f666406173230436b00''\<rparr>,
           record1\<lparr>record_id := ''MR003'', description := ''70656e69633e3b5f666406173230436b''\<rparr>,
           record1\<lparr>record_id := ''MR004'', description := ''rest''\<rparr>]) =
     [record1\<lparr>description := ''[Encrypted content]''\<rparr>,
      record1\<lparr>record_id := ''MR002'', description := ''[Encrypted content]''\<rparr>,
      record1\<lparr>record_id := ''MR003'', description := ''penicillin''\<rparr>,
      record1\<lparr>record_id := ''MR004'', description := ''rest''\<rparr>]"
proof -
  let ?t33 = "''70656e69633e3b5f666406173230436b0''"
  let ?t34 = "''70656e69633e3b5f666406173230436b00''"
  let ?t32 = "''70656e69633e3b5f666406173230436b''"
  let ?rows = "[record1\<lparr>description := ?t33\<rparr>,
           record1\<lparr>record_id := ''MR002'', description := ?t34\<rparr>,
           record1\<lparr>record_id := ''MR003'', description := ?t32\<rparr>,
           record1\<lparr>record_id := ''MR004'', description := ''rest''\<rparr>]"
  note a = fallback_enabled
  note k = createDecipheriv_fallback
  have h33: "hex_string ?t33" by (simp add: hex_string_def is_hex_char_def hex_val_def)
  have h34: "hex_string ?t34" by (simp add: hex_string_def is_hex_char_def hex_val_def)
  have h32: "hex_string ?t32" by (simp add: hex_string_def is_hex_char_def hex_val_def)
  have l33: "isLikelyEncrypted ?t33" by (simp add: isLikelyEncrypted_def is_hex_char_def hex_val_def)
  have l34: "isLikelyEncrypted ?t34" by (simp add: isLikelyEncrypted_def is_hex_char_def hex_val_def)
  have l32: "isLikelyEncrypted ?t32" by (simp add: isLikelyEncrypted_def is_hex_char_def hex_val_def)
  have lr: "\<not> isLikelyEncrypted ''rest''" by (simp add: isLikelyEncrypted_def)
  have o33: "odd (length ?t33)" by simp
  have u34: "\<exists>d. decipher_update fallback_env ?t34 = Inr d" by (simp add: decipher_update_def Let_def)
  then obtain d where d: "decipher_update fallback_env ?t34 = Inr d" by blast
  have f34: "decipher_final fallback_env ?t34 = Inl (Error ''wrong final block length'')"
    by (simp add: decipher_final_def hex_val_def Let_def)
  have b: "createDecipheriv accented_key_env = Inl (Error ''Invalid key length'')"
    by (simp add: createDecipheriv_eq createCipheriv_accented)
  have p32: "fst (decrypt fallback_env ?t32) = ''penicillin''"
    using decrypt_encrypt [OF fallback_contract, of "''penicillin''"] penicillin_ciphertext
    by (simp add: createCipheriv_fallback)
  have 1: "decipher_update fallback_env ?t33 = Inl (TypeError ''ERR_INVALID_ARG_VALUE'')"
    using decrypt_failure_placeholder [OF a h33] o33 by blast
  have 2: "decrypt fallback_env ?t33 = (''[Encrypted content]'', [(ConsoleError, ''Decryption error:'')])"
    using decrypt_failure_placeholder [OF a h33, where ?e2.0 = "TypeError ''ERR_INVALID_ARG_VALUE''"] 1
    by blast
  have 3: "decrypt fallback_env ?t34 = (''[Encrypted content]'', [(ConsoleError, ''Error in final decryption step:'')])"
    using decrypt_failure_placeholder [OF a h34, where d = d and ?e3.0 = "Error ''wrong final block length''"] k d f34
    by blast
  have 4: "decrypt accented_key_env ?t32 = (''[Encrypted content]'', [(ConsoleError, ''Decryption error:'')])"
    using decrypt_failure_placeholder [OF accented_enabled h32, where ?e1.0 = "Error ''Invalid key length''"] b
    by blast
  have 5: "fst (getAllRecords fallback_env ?rows) =
     [record1\<lparr>description := ''[Encrypted content]''\<rparr>,
      record1\<lparr>record_id := ''MR002'', description := ''[Encrypted content]''\<rparr>,
      record1\<lparr>record_id := ''MR003'', description := ''penicillin''\<rparr>,
      record1\<lparr>record_id := ''MR004'', description := ''rest''\<rparr>]"
    using decrypt_failure_placeholder [OF a h33, where rows = ?rows] l33 l34 l32 lr 2 3 p32
    by simp
  show ?thesis
    using a k h33 o33 1 2 h34 u34 f34 3 accented_enabled b 4 5 by blast
qed

text \<open>
  The claim as stated names the string \<open>[unavailable]\<close> and the severity \<open>warning\<close>. A
  ciphertext that lost its last byte comes back as \<open>[Encrypted content]\<close>, reported
  with \<open>console.error\<close>.
\<close>

theorem decrypt_sentinel_counterexample:
  "decrypt fallback_env ''70656e69633e3b5f66640617323043'' =
     (''[Encrypted content]'', [(ConsoleError, ''Error in final decryption step:'')]) \<and>
   fst (decrypt fallback_env ''70656e69633e3b5f66640617323043'') \<noteq> ''[unavailable]'' \<and>
   map fst (snd (decrypt fallback_env ''70656e69633e3b5f66640617323043'')) \<noteq> [ConsoleWarn]"
  by (simp add: decrypt_def hex_string_def is_hex_char_def hex_val_def
        fallback_enabled createDecipheriv_fallback decipher_update_def decipher_final_def Let_def)

section \<open>Properties of the audit service\<close>

lemma logAudit_returns: "\<exists>r. fst (logAudit fault userId action resourceType resourceId details d) = Inr r"
  by (cases fault) (simp_all add: logAudit_def insert_audit_log_def Let_def)

lemma logAudit_failure:
  "logAudit (Some e) userId action resourceType resourceId details d =
     (Inr None, console_write ConsoleError ''Audit logging error:'' d)"
  by (simp add: logAudit_def insert_audit_log_def)

lemma logAudit_frame:
  "insurance_allocations (snd (logAudit fault u a rt ri det d)) = insurance_allocations d"
  "data_requests (snd (logAudit fault u a rt ri det d)) = data_requests d"
  "approved_records (snd (logAudit fault u a rt ri det d)) = approved_records d"
  "records (snd (logAudit fault u a rt ri det d)) = records d"
  "record_requests (snd (logAudit fault u a rt ri det d)) = record_requests d"
  "patients (snd (logAudit fault u a rt ri det d)) = patients d"
  "insurance_companies (snd (logAudit fault u a rt ri det d)) = insurance_companies d"
  "staff (snd (logAudit fault u a rt ri det d)) = staff d"
  "clock (snd (logAudit fault u a rt ri det d)) = clock d"
  by (cases fault; simp add: logAudit_def insert_audit_log_def Let_def console_write_def)+

lemma console_write_frame:
  "insurance_allocations (console_write l m d) = insurance_allocations d"
  "data_requests (console_write l m d) = data_requests d"
  "approved_records (console_write l m d) = approved_records d"
  "records (console_write l m d) = records d"
  "record_requests (console_write l m d) = record_requests d"
  "patients (console_write l m d) = patients d"
  "insurance_companies (console_write l m d) = insurance_companies d"
  "staff (console_write l m d) = staff d"
  "clock (console_write l m d) = clock d"
  "audit_logs (console_write l m d) = audit_logs d"
  by (simp_all add: console_write_def)

text \<open>The response of a handler does not depend on the outcome of the audit \<open>INSERT\<close>.\<close>

lemma getApprovedRecords_fault: "fst (getApprovedRecords fault requestId usr d) = fst (getApprovedRecords fault' requestId usr d)"
  by (simp add: getApprovedRecords_def Let_def case_prod_beta split: list.splits)

lemma requestMedicalRecords_fault: "fst (requestMedicalRecords fault p rq usr d) = fst (requestMedicalRecords fault' p rq usr d)"
  by (simp add: requestMedicalRecords_def Let_def case_prod_beta)

lemma updateConnectionStatus_fault: "fst (updateConnectionStatus fault i s n usr d) = fst (updateConnectionStatus fault' i s n usr d)"
  by (simp add: updateConnectionStatus_def Let_def case_prod_beta)

lemma insuranceController_createDataRequest_fault:
  "fst (insuranceController_createDataRequest fault body usr d) = fst (insuranceController_createDataRequest fault' body usr d)"
  by (simp add: insuranceController_createDataRequest_def Let_def case_prod_beta split: prod.splits sum.splits option.splits)

lemma dataRequestController_createDataRequest_fault:
  "fst (dataRequestController_createDataRequest fault body usr d) = fst (dataRequestController_createDataRequest fault' body usr d)"
  by (simp add: dataRequestController_createDataRequest_def Let_def case_prod_beta split: prod.splits sum.splits option.splits)

lemma approveDataRequest_fault:
  "fst (approveDataRequest fault i n usr d) = fst (approveDataRequest fault' i n usr d)"
  by (simp add: approveDataRequest_def Let_def case_prod_beta split: prod.splits sum.splits)

lemma rejectDataRequest_fault:
  "fst (rejectDataRequest fault i n usr d) = fst (rejectDataRequest fault' i n usr d)"
  by (simp add: rejectDataRequest_def Let_def case_prod_beta split: prod.splits sum.splits)

text \<open>
  C9. \<open>logAudit\<close> returns for every outcome of the \<open>INSERT\<close> and never throws: when
  the store rejects the statement, the error is written to \<open>console.error\<close>, the store is
  otherwise unchanged and the result is \<open>null\<close>. Every handler that calls it gives the
  same response whether the audit entry was written or not.
\<close>

theorem logAudit_never_raises:
  "(\<exists>r. fst (logAudit fault userId action resourceType resourceId details d) = Inr r) \<and>
   logAudit (Some e) userId action resourceType resourceId details d =
     (Inr None, console_write ConsoleError ''Audit logging error:'' d) \<and>
   fst (getApprovedRecords (Some e) requestId usr d) = fst (getApprovedRecords None requestId usr d) \<and>
   fst (requestMedicalRecords (Some e) patientId requestDetails usr d) = fst (requestMedicalRecords None patientId requestDetails usr d) \<and>
   fst (updateConnectionStatus (Some e) allocationId status notes usr d) = fst (updateConnectionStatus None allocationId status notes usr d) \<and>
   fst (insuranceController_createDataRequest (Some e) body usr d) = fst (insuranceController_createDataRequest None body usr d) \<and>
   fst (dataRequestController_createDataRequest (Some e) body usr d) = fst (dataRequestController_createDataRequest None body usr d) \<and>
   fst (approveDataRequest (Some e) ident notes usr d) = fst (approveDataRequest None ident notes usr d) \<and>
   fst (rejectDataRequest (Some e) ident notes usr d) = fst (rejectDataRequest None ident notes usr d)"
  by (intro conjI logAudit_returns logAudit_failure getApprovedRecords_fault requestMedicalRecords_fault
    updateConnectionStatus_fault insuranceController_createDataRequest_fault
    dataRequestController_createDataRequest_fault approveDataRequest_fault rejectDataRequest_fault)

theorem logAudit_never_raises_witness:
  "logAudit (Some (DbError ''ECONNREFUSED'')) ''IN001'' ''view'' ''approved_records'' ''REQ000001'' [] sample_db =
     (Inr None, console_write ConsoleError ''Audit logging error:'' sample_db) \<and>
   fst (getApprovedRecords (Some (DbError ''ECONNREFUSED'')) ''REQ000001'' insurer sample_db) =
     fst (getApprovedRecords None ''REQ000001'' insurer sample_db)"
  using logAudit_never_raises [of "Some (DbError ''ECONNREFUSED'')" "''IN001''" "''view''" "''approved_records''"
      "''REQ000001''" "[]" sample_db "DbError ''ECONNREFUSED''" "''REQ000001''" insurer]
  by simp

section \<open>Properties of the read path\<close>

lemmas sample_defs = sample_db_def insurer_def admin_def allocation1_def request1_def record1_def grant1_def body1_def

lemma getApprovedRecords_reply:
  "fst (getApprovedRecords fault requestId usr d) =
     (case select_approved_request requestId (u_id usr) d of
        [] \<Rightarrow> Next (AppError ''Approved request not found'' 404)
      | request0 # _ \<Rightarrow> Json 200 (request0, select_approved_records (dr_patient_id request0) requestId d))"
  by (simp add: getApprovedRecords_def Let_def case_prod_beta split: list.splits)

lemma getApprovedRecords_frame:
  "approved_records (snd (getApprovedRecords fault requestId usr d)) = approved_records d"
  "data_requests (snd (getApprovedRecords fault requestId usr d)) = data_requests d"
  "records (snd (getApprovedRecords fault requestId usr d)) = records d"
  "patients (snd (getApprovedRecords fault requestId usr d)) = patients d"
  "staff (snd (getApprovedRecords fault requestId usr d)) = staff d"
  by (simp_all add: getApprovedRecords_def Let_def case_prod_beta logAudit_frame console_write_frame split: list.splits)

lemma getApprovedRecords_cong:
  assumes "approved_records d' = approved_records d" "data_requests d' = data_requests d"
    "records d' = records d" "patients d' = patients d" "staff d' = staff d"
  shows "fst (getApprovedRecords fault' requestId usr d') = fst (getApprovedRecords fault requestId usr d)"
proof -
  have a: "select_approved_request requestId (u_id usr) d' = select_approved_request requestId (u_id usr) d"
    by (simp add: select_approved_request_def assms)
  have b: "\<And>pid. select_approved_records pid requestId d' = select_approved_records pid requestId d"
    unfolding select_approved_records_def assms ..
  show ?thesis
    by (simp add: getApprovedRecords_def Let_def case_prod_beta a b split: list.splits)
qed

lemma reads_frame:
  "approved_records (reads calls requestId usr d) = approved_records d \<and>
   data_requests (reads calls requestId usr d) = data_requests d \<and>
   records (reads calls requestId usr d) = records d \<and>
   patients (reads calls requestId usr d) = patients d \<and>
   staff (reads calls requestId usr d) = staff d"
proof (induction calls arbitrary: d)
  case Nil show ?case by simp
next
  case (Cons c calls)
  obtain fault t where c: "c = (fault, t)" by (cases c)
  show ?case unfolding c reads.simps
    by (simp add: Cons.IH getApprovedRecords_frame)
qed

text \<open>
  C1, as amended. \<open>getApprovedRecords\<close> consumes nothing: after any number of reads, at
  any times and with any audit outcomes, \<open>approved_records\<close> is what it was, so no
  \<open>access_count\<close> has changed and \<open>access_count \<le> max_access_count\<close> holds after the
  reads if it held before; and a further read gives the response the first read gave,
  which is 200 with the approved records whenever the request is approved and belongs to
  the company, and 404 otherwise. For a grant with \<open>max_access_count = N\<close> the read after the \<open>N\<close>-th is
  answered like the first; there is no quota error.
\<close>

theorem reads_never_consume_quota:
  "approved_records (reads calls requestId usr d) = approved_records d \<and>
   fst (getApprovedRecords fault requestId usr (reads calls requestId usr d)) =
     fst (getApprovedRecords fault requestId usr d) \<and>
   (select_approved_request requestId (u_id usr) d = request0 # rest \<longrightarrow>
      fst (getApprovedRecords fault requestId usr (reads calls requestId usr d)) =
        Json 200 (request0, select_approved_records (dr_patient_id request0) requestId d)) \<and>
   (select_approved_request requestId (u_id usr) d = [] \<longrightarrow>
      fst (getApprovedRecords fault requestId usr (reads calls requestId usr d)) =
        Next (AppError ''Approved request not found'' 404)) \<and>
   ((\<forall>g \<in> set (approved_records d). ar_access_count g \<le> ar_max_access_count g) \<longrightarrow>
      (\<forall>g \<in> set (approved_records (reads calls requestId usr d)).
         ar_access_count g \<le> ar_max_access_count g))"
proof -
  have f: "approved_records (reads calls requestId usr d) = approved_records d"
    using reads_frame [of calls requestId usr d] by (rule conjunct1)
  have r: "fst (getApprovedRecords fault requestId usr (reads calls requestId usr d)) =
             fst (getApprovedRecords fault requestId usr d)"
    using reads_frame [of calls requestId usr d] by (simp add: getApprovedRecords_cong)
  have j: "fst (getApprovedRecords fault requestId usr d) =
             Json 200 (request0, select_approved_records (dr_patient_id request0) requestId d)"
    if "select_approved_request requestId (u_id usr) d = request0 # rest"
    unfolding getApprovedRecords_reply that by simp
  show ?thesis
  proof (intro conjI impI)
    show "approved_records (reads calls requestId usr d) = approved_records d" by (rule f)
    show "fst (getApprovedRecords fault requestId usr (reads calls requestId usr d)) =
            fst (getApprovedRecords fault requestId usr d)" by (rule r)
  next
    assume "select_approved_request requestId (u_id usr) d = request0 # rest"
    then show "fst (getApprovedRecords fault requestId usr (reads calls requestId usr d)) =
        Json 200 (request0, select_approved_records (dr_patient_id request0) requestId d)"
      unfolding r by (rule j)
  next
    assume n: "select_approved_request requestId (u_id usr) d = []"
    have "fst (getApprovedRecords fault requestId usr d) =
        Next (AppError ''Approved request not found'' 404)"
      unfolding getApprovedRecords_reply n by simp
    then show "fst (getApprovedRecords fault requestId usr (reads calls requestId usr d)) =
        Next (AppError ''Approved request not found'' 404)"
      unfolding r .
  next
    assume "\<forall>g \<in> set (approved_records d). ar_access_count g \<le> ar_max_access_count g"
    then show "\<forall>g \<in> set (approved_records (reads calls requestId usr d)).
         ar_access_count g \<le> ar_max_access_count g"
      unfolding f .
  qed
qed

theorem reads_never_consume_quota_witness:
  "select_approved_request ''REQ000001'' (u_id insurer) sample_db = [request1] \<and>
   select_approved_records (dr_patient_id request1) ''REQ000001'' sample_db =
     [(record1, ''A. Perera'', ''N. Silva'')] \<and>
   approved_records (reads [(None, 60), (Some (DbError ''ECONNRESET''), 70)] ''REQ000001'' insurer sample_db) = [grant1] \<and>
   fst (getApprovedRecords None ''REQ000001'' insurer
          (reads [(None, 60), (Some (DbError ''ECONNRESET''), 70)] ''REQ000001'' insurer sample_db)) =
     Json 200 (request1, [(record1, ''A. Perera'', ''N. Silva'')]) \<and>
   select_approved_request ''REQ000002'' (u_id insurer) sample_db = [] \<and>
   fst (getApprovedRecords None ''REQ000002'' insurer
          (reads [(None, 60), (None, 70)] ''REQ000002'' insurer sample_db)) =
     Next (AppError ''Approved request not found'' 404)"
proof -
  have a: "approved_records sample_db = [grant1]" by (simp add: sample_db_def)
  have n: "select_approved_request ''REQ000002'' (u_id insurer) sample_db = []"
    by (simp add: select_approved_request_def sample_defs)
  have m: "fst (getApprovedRecords None ''REQ000002'' insurer
          (reads [(None, 60), (None, 70)] ''REQ000002'' insurer sample_db)) =
     Next (AppError ''Approved request not found'' 404)"
    using reads_never_consume_quota [of "[(None, 60), (None, 70)]" "''REQ000002''" insurer sample_db None]
      n by blast
  have b: "select_approved_request ''REQ000001'' (u_id insurer) sample_db = request1 # []"
    by (simp add: select_approved_request_def sample_defs)
  have c: "select_approved_records (dr_patient_id request1) ''REQ000001'' sample_db =
     [(record1, ''A. Perera'', ''N. Silva'')]"
    by (simp add: select_approved_records_def sample_defs)
  show ?thesis
    using reads_never_consume_quota [of "[(None, 60), (Some (DbError ''ECONNRESET''), 70)]" "''REQ000001''"
        insurer sample_db None request1 "[]"] b n m
    unfolding a c by blast
qed

text \<open>
  The claim as stated fails on the sample store: the grant allows one access, and the
  second read returns the record as the first did, with \<open>access_count\<close> still 0.
\<close>

theorem second_read_beyond_quota_counterexample:
  "map ar_max_access_count (approved_records sample_db) = [1] \<and>
   fst (getApprovedRecords None ''REQ000001'' insurer sample_db) =
     Json 200 (request1, [(record1, ''A. Perera'', ''N. Silva'')]) \<and>
   fst (getApprovedRecords None ''REQ000001'' insurer
          (snd (getApprovedRecords None ''REQ000001'' insurer sample_db))) =
     Json 200 (request1, [(record1, ''A. Perera'', ''N. Silva'')]) \<and>
   map ar_access_count (approved_records (snd (getApprovedRecords None ''REQ000001'' insurer sample_db))) = [0]"
  by (simp add: getApprovedRecords_def select_approved_request_def select_approved_records_def
        sample_defs Let_def case_prod_beta logAudit_def insert_audit_log_def console_write_def next_id_def)

lemma select_approved_records_mem:
  "(r, pn, sn) \<in> set (select_approved_records pid rid d) \<longleftrightarrow>
     r \<in> set (records d) \<and> patient_id r = pid \<and>
     (\<exists>p \<in> set (patients d). \<exists>s \<in> set (staff d).
        patient_id r = p_patient_id p \<and> doc_id r = s_staff_id s \<and>
        pn = p_name p \<and> sn = s_first_name s @ '' '' @ s_last_name s) \<and>
     (\<exists>a \<in> set (approved_records d). ar_request_id a = rid \<and> ar_record_id a = record_id r)"
  unfolding select_approved_records_def by (auto split: if_splits simp: image_iff)

text \<open>
  C3, as amended. The read path does not look at \<open>access_granted_until\<close>. The one denial
  is the 404 response when no data request with that id, of that company and with status
  1 exists. Otherwise the response is 200, and a record with a row in \<open>approved_records\<close>
  for the request is in it also when that row's \<open>access_granted_until\<close> is in the past.
\<close>

theorem expired_grant_still_served:
  "(select_approved_request requestId (u_id usr) d = [] \<longrightarrow>
      fst (getApprovedRecords fault requestId usr d) = Next (AppError ''Approved request not found'' 404)) \<and>
   (select_approved_request requestId (u_id usr) d = request0 # rest \<and>
    g \<in> set (approved_records d) \<and> ar_request_id g = requestId \<and>
    ar_access_granted_until g = Some t \<and> t < clock d \<and>
    r \<in> set (records d) \<and> record_id r = ar_record_id g \<and> patient_id r = dr_patient_id request0 \<and>
    p \<in> set (patients d) \<and> p_patient_id p = patient_id r \<and>
    s \<in> set (staff d) \<and> s_staff_id s = doc_id r \<longrightarrow>
      fst (getApprovedRecords fault requestId usr d) =
        Json 200 (request0, select_approved_records (dr_patient_id request0) requestId d) \<and>
      (r, p_name p, s_first_name s @ '' '' @ s_last_name s)
        \<in> set (select_approved_records (dr_patient_id request0) requestId d))"
proof (intro conjI impI)
  assume "select_approved_request requestId (u_id usr) d = []"
  then show "fst (getApprovedRecords fault requestId usr d) = Next (AppError ''Approved request not found'' 404)"
    by (simp add: getApprovedRecords_def)
next
  assume h: "select_approved_request requestId (u_id usr) d = request0 # rest \<and>
    g \<in> set (approved_records d) \<and> ar_request_id g = requestId \<and>
    ar_access_granted_until g = Some t \<and> t < clock d \<and>
    r \<in> set (records d) \<and> record_id r = ar_record_id g \<and> patient_id r = dr_patient_id request0 \<and>
    p \<in> set (patients d) \<and> p_patient_id p = patient_id r \<and>
    s \<in> set (staff d) \<and> s_staff_id s = doc_id r"
  then show "fst (getApprovedRecords fault requestId usr d) =
        Json 200 (request0, select_approved_records (dr_patient_id request0) requestId d)"
    by (simp add: getApprovedRecords_def Let_def case_prod_beta)
  from h have "ar_record_id g \<in> set (map ar_record_id (filter (\<lambda>a. ar_request_id a = requestId) (approved_records d)))"
    by auto
  with h show "(r, p_name p, s_first_name s @ '' '' @ s_last_name s)
        \<in> set (select_approved_records (dr_patient_id request0) requestId d)"
    unfolding select_approved_records_mem by metis
qed

theorem expired_grant_still_served_witness:
  "select_approved_request ''REQ000001'' (u_id insurer) (sample_db\<lparr>clock := 500\<rparr>) = [request1] \<and>
   ar_access_granted_until grant1 = Some 100 \<and> (100::nat) < clock (sample_db\<lparr>clock := 500\<rparr>) \<and>
   fst (getApprovedRecords None ''REQ000001'' insurer (sample_db\<lparr>clock := 500\<rparr>)) =
     Json 200 (request1, select_approved_records (dr_patient_id request1) ''REQ000001'' (sample_db\<lparr>clock := 500\<rparr>)) \<and>
   (record1, ''A. Perera'', ''N. Silva'')
     \<in> set (select_approved_records (dr_patient_id request1) ''REQ000001'' (sample_db\<lparr>clock := 500\<rparr>)) \<and>
   select_approved_request ''REQ000002'' (u_id insurer) sample_db = [] \<and>
   fst (getApprovedRecords None ''REQ000002'' insurer sample_db) = Next (AppError ''Approved request not found'' 404)"
proof -
  let ?d = "sample_db\<lparr>clock := 500\<rparr>"
  let ?p = "\<lparr>p_patient_id = ''PT001'', p_name = ''A. Perera''\<rparr>"
  let ?s = "\<lparr>s_staff_id = ''ST001'', s_first_name = ''N.'', s_last_name = ''Silva''\<rparr>"
  have a: "select_approved_request ''REQ000001'' (u_id insurer) ?d = request1 # []"
    by (simp add: select_approved_request_def sample_defs)
  have b: "grant1 \<in> set (approved_records ?d)" "ar_request_id grant1 = ''REQ000001''"
    "ar_access_granted_until grant1 = Some 100" "(100::nat) < clock ?d"
    by (simp_all add: sample_defs)
  have c: "record1 \<in> set (records ?d)" "record_id record1 = ar_record_id grant1"
    "patient_id record1 = dr_patient_id request1"
    by (simp_all add: sample_defs)
  have e: "?p \<in> set (patients ?d)" "p_patient_id ?p = patient_id record1"
    "?s \<in> set (staff ?d)" "s_staff_id ?s = doc_id record1"
    by (simp_all add: sample_defs)
  have f: "select_approved_request ''REQ000002'' (u_id insurer) sample_db = []"
    by (simp add: select_approved_request_def sample_defs)
  from expired_grant_still_served [of "''REQ000001''" insurer ?d None request1 "[]" grant1 100 record1 ?p ?s] a b c e
  have "fst (getApprovedRecords None ''REQ000001'' insurer ?d) =
     Json 200 (request1, select_approved_records (dr_patient_id request1) ''REQ000001'' ?d) \<and>
   (record1, ''A. Perera'', ''N. Silva'')
     \<in> set (select_approved_records (dr_patient_id request1) ''REQ000001'' ?d)"
    by simp
  moreover from expired_grant_still_served [of "''REQ000002''" insurer sample_db None] f
  have "fst (getApprovedRecords None ''REQ000002'' insurer sample_db) = Next (AppError ''Approved request not found'' 404)"
    by blast
  ultimately show ?thesis using a b f by simp
qed

text \<open>
  The claim as stated fails on the sample store at time 500: access was granted until
  100, and the read returns the record.
\<close>

theorem expired_grant_read_counterexample:
  "map ar_access_granted_until (approved_records (sample_db\<lparr>clock := 500\<rparr>)) = [Some 100] \<and>
   clock (sample_db\<lparr>clock := 500\<rparr>) = 500 \<and>
   fst (getApprovedRecords None ''REQ000001'' insurer (sample_db\<lparr>clock := 500\<rparr>)) =
     Json 200 (request1, [(record1, ''A. Perera'', ''N. Silva'')])"
  by (simp add: getApprovedRecords_def select_approved_request_def select_approved_records_def
        sample_defs Let_def case_prod_beta)

section \<open>Properties of the allocation and request state machines\<close>

lemma updateAllocationStatus_absent:
  "filter (\<lambda>a. ia_id a = ident) (insurance_allocations d) = [] \<Longrightarrow>
   updateAllocationStatus ident status notes d = (Inl (Error ''Insurance allocation not found''), d)"
  by (simp add: updateAllocationStatus_def)

lemma set_status_map:
  "\<forall>a \<in> set (map (\<lambda>a. if ia_id a = i then a\<lparr>ia_status := st, ia_notes := n\<rparr> else a) xs).
     ia_id a = i \<longrightarrow> ia_status a = st"
proof (intro ballI impI)
  fix a
  assume a: "a \<in> set (map (\<lambda>a. if ia_id a = i then a\<lparr>ia_status := st, ia_notes := n\<rparr> else a) xs)"
    and i: "ia_id a = i"
  from a obtain x where x: "a = (if ia_id x = i then x\<lparr>ia_status := st, ia_notes := n\<rparr> else x)"
    by (auto simp only: set_map image_iff)
  show "ia_status a = st"
  proof (cases "ia_id x = i")
    case True
    with x have "a = x\<lparr>ia_status := st, ia_notes := n\<rparr>" by metis
    then show ?thesis by simp
  next
    case False
    with x have "a = x" by metis
    with i False show ?thesis by blast
  qed
qed

lemma updateAllocationStatus_present:
  assumes "filter (\<lambda>a. ia_id a = ident) (insurance_allocations d) \<noteq> []"
  shows "(\<exists>v. fst (updateAllocationStatus ident status notes d) = Inr v) \<and>
         (\<forall>a \<in> set (insurance_allocations (snd (updateAllocationStatus ident status notes d))).
            ia_id a = ident \<longrightarrow> ia_status a = status)"
proof -
  from assms obtain row0 rest where rows: "filter (\<lambda>a. ia_id a = ident) (insurance_allocations d) = row0 # rest"
    by (cases "filter (\<lambda>a. ia_id a = ident) (insurance_allocations d)") simp_all
  let ?d' = "d\<lparr>insurance_allocations :=
                 map (\<lambda>a. if ia_id a = ident
                           then a\<lparr>ia_status := status, ia_notes := js_or notes (ia_notes row0)\<rparr>
                           else a)
                     (insurance_allocations d)\<rparr>"
  have eq: "updateAllocationStatus ident status notes d = (Inr (getAllocationById ident ?d'), ?d')"
    by (simp add: updateAllocationStatus_def Let_def rows)
  have sel: "insurance_allocations ?d' =
                 map (\<lambda>a. if ia_id a = ident
                           then a\<lparr>ia_status := status, ia_notes := js_or notes (ia_notes row0)\<rparr>
                           else a)
                     (insurance_allocations d)"
    by simp
  have 1: "\<exists>v. fst (updateAllocationStatus ident status notes d) = Inr v"
    unfolding eq fst_conv by (rule exI) (rule refl)
  have 2: "\<forall>a \<in> set (insurance_allocations (snd (updateAllocationStatus ident status notes d))).
            ia_id a = ident \<longrightarrow> ia_status a = status"
    unfolding eq snd_conv sel by (rule set_status_map)
  from 1 2 show ?thesis by (rule conjI)
qed

lemma updateConnectionStatus_absent:
  "filter (\<lambda>a. ia_id a = allocationId \<and> ia_company_id a = u_id usr) (insurance_allocations d) = [] \<Longrightarrow>
   updateConnectionStatus fault allocationId status notes usr d = (Next (AppError ''Connection request not found'' 404), d)"
  by (simp add: updateConnectionStatus_def)

lemma updateConnectionStatus_present:
  assumes "filter (\<lambda>a. ia_id a = allocationId \<and> ia_company_id a = u_id usr) (insurance_allocations d) \<noteq> []"
  shows "(\<exists>m. fst (updateConnectionStatus fault allocationId status notes usr d) = Json 200 m) \<and>
         (\<forall>a \<in> set (insurance_allocations (snd (updateConnectionStatus fault allocationId status notes usr d))).
            ia_id a = allocationId \<longrightarrow> ia_status a = (if status = ''approved'' then 1 else 2))"
proof -
  let ?st = "if status = ''approved'' then 1 else (2::int)"
  let ?d1 = "d\<lparr>insurance_allocations :=
                 map (\<lambda>a. if ia_id a = allocationId
                           then a\<lparr>ia_status := ?st, ia_notes := js_or notes None\<rparr>
                           else a)
                     (insurance_allocations d)\<rparr>"
  let ?msg = "''Connection '' @ (if status = ''approved'' then ''approved'' else ''rejected'') @ '' successfully''"
  let ?d2 = "snd (logAudit fault (u_id usr) ''update'' ''insurance_allocation'' (toString allocationId)
                [(''status'', status), (''notes'', case notes of None \<Rightarrow> [] | Some n \<Rightarrow> n)] ?d1)"
  have eq: "updateConnectionStatus fault allocationId status notes usr d = (Json 200 ?msg, ?d2)"
    using assms by (simp add: updateConnectionStatus_def Let_def case_prod_beta)
  have fr: "insurance_allocations ?d2 = insurance_allocations ?d1" by (rule logAudit_frame)
  have sel: "insurance_allocations ?d1 =
                 map (\<lambda>a. if ia_id a = allocationId
                           then a\<lparr>ia_status := ?st, ia_notes := js_or notes None\<rparr>
                           else a)
                     (insurance_allocations d)"
    by simp
  have 1: "\<exists>m. fst (updateConnectionStatus fault allocationId status notes usr d) = Json 200 m"
    unfolding eq fst_conv by (rule exI) (rule refl)
  have 2: "\<forall>a \<in> set (insurance_allocations (snd (updateConnectionStatus fault allocationId status notes usr d))).
            ia_id a = allocationId \<longrightarrow> ia_status a = ?st"
    unfolding eq snd_conv fr sel by (rule set_status_map)
  from 1 2 show ?thesis by (rule conjI)
qed

text \<open>
  C5, as amended. Deciding an absent allocation fails: \<open>updateAllocationStatus\<close> throws
  \<open>Insurance allocation not found\<close>, \<open>updateConnectionStatus\<close> answers 404, and the store
  is unchanged. Deciding an allocation that exists succeeds whatever its status is
  (pending, approved or rejected), and sets the status that was asked for.
\<close>

theorem decide_overwrites_any_status:
  "(filter (\<lambda>a. ia_id a = ident) (insurance_allocations d) = [] \<longrightarrow>
      updateAllocationStatus ident status notes d = (Inl (Error ''Insurance allocation not found''), d)) \<and>
   (filter (\<lambda>a. ia_id a = ident) (insurance_allocations d) \<noteq> [] \<longrightarrow>
      (\<exists>v. fst (updateAllocationStatus ident status notes d) = Inr v) \<and>
      (\<forall>a \<in> set (insurance_allocations (snd (updateAllocationStatus ident status notes d))).
         ia_id a = ident \<longrightarrow> ia_status a = status)) \<and>
   (filter (\<lambda>a. ia_id a = ident \<and> ia_company_id a = u_id usr) (insurance_allocations d) = [] \<longrightarrow>
      updateConnectionStatus fault ident decision notes usr d =
        (Next (AppError ''Connection request not found'' 404), d)) \<and>
   (filter (\<lambda>a. ia_id a = ident \<and> ia_company_id a = u_id usr) (insurance_allocations d) \<noteq> [] \<longrightarrow>
      (\<exists>m. fst (updateConnectionStatus fault ident decision notes usr d) = Json 200 m) \<and>
      (\<forall>a \<in> set (insurance_allocations (snd (updateConnectionStatus fault ident decision notes usr d))).
         ia_id a = ident \<longrightarrow> ia_status a = (if decision = ''approved'' then 1 else 2)))"
proof (intro conjI impI)
  assume "filter (\<lambda>a. ia_id a = ident) (insurance_allocations d) = []"
  then show "updateAllocationStatus ident status notes d = (Inl (Error ''Insurance allocation not found''), d)"
    by (rule updateAllocationStatus_absent)
next
  assume h: "filter (\<lambda>a. ia_id a = ident) (insurance_allocations d) \<noteq> []"
  show "\<exists>v. fst (updateAllocationStatus ident status notes d) = Inr v"
    using updateAllocationStatus_present [OF h] by (rule conjunct1)
  show "\<forall>a \<in> set (insurance_allocations (snd (updateAllocationStatus ident status notes d))).
         ia_id a = ident \<longrightarrow> ia_status a = status"
    using updateAllocationStatus_present [OF h] by (rule conjunct2)
next
  assume "filter (\<lambda>a. ia_id a = ident \<and> ia_company_id a = u_id usr) (insurance_allocations d) = []"
  then show "updateConnectionStatus fault ident decision notes usr d =
        (Next (AppError ''Connection request not found'' 404), d)"
    by (rule updateConnectionStatus_absent)
next
  assume h: "filter (\<lambda>a. ia_id a = ident \<and> ia_company_id a = u_id usr) (insurance_allocations d) \<noteq> []"
  show "\<exists>m. fst (updateConnectionStatus fault ident decision notes usr d) = Json 200 m"
    using updateConnectionStatus_present [OF h] by (rule conjunct1)
  show "\<forall>a \<in> set (insurance_allocations (snd (updateConnectionStatus fault ident decision notes usr d))).
         ia_id a = ident \<longrightarrow> ia_status a = (if decision = ''approved'' then 1 else 2)"
    using updateConnectionStatus_present [OF h] by (rule conjunct2)
qed

theorem decide_overwrites_any_status_witness:
  "filter (\<lambda>a. ia_id a = 7) (insurance_allocations sample_db) = [] \<and>
   updateAllocationStatus 7 1 None sample_db = (Inl (Error ''Insurance allocation not found''), sample_db) \<and>
   filter (\<lambda>a. ia_id a = 1) (insurance_allocations sample_db) \<noteq> [] \<and>
   (\<exists>v. fst (updateAllocationStatus 1 0 None sample_db) = Inr v) \<and>
   map ia_status (insurance_allocations (snd (updateAllocationStatus 1 0 None sample_db))) = [0] \<and>
   filter (\<lambda>a. ia_id a = 1 \<and> ia_company_id a = u_id insurer) (insurance_allocations sample_db) \<noteq> [] \<and>
   (\<exists>m. fst (updateConnectionStatus None 1 ''rejected'' None insurer sample_db) = Json 200 m) \<and>
   map ia_status (insurance_allocations (snd (updateConnectionStatus None 1 ''rejected'' None insurer sample_db))) = [2]"
proof -
  have a: "filter (\<lambda>a. ia_id a = 7) (insurance_allocations sample_db) = []"
    by (simp add: sample_defs)
  have b: "filter (\<lambda>a. ia_id a = 1) (insurance_allocations sample_db) \<noteq> []"
    by (simp add: sample_defs)
  have c: "filter (\<lambda>a. ia_id a = 1 \<and> ia_company_id a = u_id insurer) (insurance_allocations sample_db) \<noteq> []"
    by (simp add: sample_defs)
  have e: "insurance_allocations (snd (updateAllocationStatus 1 0 None sample_db)) = [allocation1\<lparr>ia_status := 0\<rparr>]"
    by (simp add: updateAllocationStatus_def js_or_def sample_defs Let_def)
  have f: "insurance_allocations (snd (updateConnectionStatus None 1 ''rejected'' None insurer sample_db)) =
             [allocation1\<lparr>ia_status := 2\<rparr>]"
    unfolding updateConnectionStatus_def Let_def case_prod_beta
    by (simp add: logAudit_frame js_or_def sample_defs)
  have "(\<exists>v. fst (updateAllocationStatus 1 0 None sample_db) = Inr v) \<and>
        (\<exists>m. fst (updateConnectionStatus None 1 ''rejected'' None insurer sample_db) = Json 200 m) \<and>
        updateAllocationStatus 7 1 None sample_db = (Inl (Error ''Insurance allocation not found''), sample_db)"
    using decide_overwrites_any_status [of 7 sample_db 1 None insurer None "''rejected''"]
      decide_overwrites_any_status [of 1 sample_db 0 None insurer None "''rejected''"] a b c
    by blast
  moreover have "map ia_status (insurance_allocations (snd (updateAllocationStatus 1 0 None sample_db))) = [0]"
    unfolding e by simp
  moreover have "map ia_status (insurance_allocations
                   (snd (updateConnectionStatus None 1 ''rejected'' None insurer sample_db))) = [2]"
    unfolding f by simp
  ultimately show ?thesis using a b c by blast
qed

text \<open>
  The claim as stated fails on the sample store: the allocation is approved, and
  rejecting it succeeds and stores status 2.
\<close>

theorem decide_on_approved_counterexample:
  "map ia_status (insurance_allocations sample_db) = [1] \<and>
   fst (updateAllocationStatus 1 2 None sample_db) =
     Inr (Some \<lparr>av_allocation_id = 1, av_company_id = ''IN001'', av_patient_id = ''PT001'',
                av_status = ''rejected'', av_notes = None, av_created_at = 10,
                av_patient_name = ''A. Perera'', av_company_name = ''Ceylon Assurance''\<rparr>) \<and>
   map ia_status (insurance_allocations (snd (updateAllocationStatus 1 2 None sample_db))) = [2]"
  by (simp add: updateAllocationStatus_def getAllocationById_def formatStatus_def js_or_def
        sample_defs Let_def)

lemma parseStatus_approved: "parseStatus ''approved'' = 1"
  by (simp add: parseStatus_def toLowerCase_def Let_def)

lemma parseStatus_rejected: "parseStatus ''rejected'' = 2"
  by (simp add: parseStatus_def toLowerCase_def Let_def)

lemma set_request_status_map:
  "\<forall>r \<in> set (map (\<lambda>r. if dr_request_id r = i
                          then r\<lparr>dr_status := st, dr_response_notes := n, dr_response_date := t\<rparr>
                          else r) xs).
     dr_request_id r = i \<longrightarrow> dr_status r = st"
proof (intro ballI impI)
  fix r
  assume r: "r \<in> set (map (\<lambda>r. if dr_request_id r = i
                          then r\<lparr>dr_status := st, dr_response_notes := n, dr_response_date := t\<rparr>
                          else r) xs)"
    and i: "dr_request_id r = i"
  from r obtain x where x: "r = (if dr_request_id x = i
                          then x\<lparr>dr_status := st, dr_response_notes := n, dr_response_date := t\<rparr>
                          else x)"
    by (auto simp only: set_map image_iff)
  show "dr_status r = st"
  proof (cases "dr_request_id x = i")
    case True
    with x have "r = x\<lparr>dr_status := st, dr_response_notes := n, dr_response_date := t\<rparr>" by metis
    then show ?thesis by simp
  next
    case False
    with x have "r = x" by metis
    with i False show ?thesis by blast
  qed
qed

lemma updateDataRequestStatus_absent:
  "getDataRequestById ident d = None \<Longrightarrow>
   updateDataRequestStatus ident status notes d = (Inl (Error ''Data request not found''), d)"
  by (simp add: updateDataRequestStatus_def)

lemma updateDataRequestStatus_present:
  assumes "getDataRequestById ident d \<noteq> None"
  shows "(\<exists>v. fst (updateDataRequestStatus ident status notes d) = Inr v) \<and>
         (\<forall>r \<in> set (data_requests (snd (updateDataRequestStatus ident status notes d))).
            dr_request_id r = ident \<longrightarrow> dr_status r = status)"
proof -
  from assms obtain request where g: "getDataRequestById ident d = Some request" by blast
  let ?d' = "d\<lparr>data_requests :=
                 map (\<lambda>r. if dr_request_id r = ident
                           then r\<lparr>dr_status := status, dr_response_notes := js_or notes None,
                                  dr_response_date := Some (clock d)\<rparr>
                           else r)
                     (data_requests d)\<rparr>"
  have eq: "updateDataRequestStatus ident status notes d = (Inr (getDataRequestById ident ?d'), ?d')"
    by (simp add: updateDataRequestStatus_def Let_def g)
  have sel: "data_requests ?d' =
                 map (\<lambda>r. if dr_request_id r = ident
                           then r\<lparr>dr_status := status, dr_response_notes := js_or notes None,
                                  dr_response_date := Some (clock d)\<rparr>
                           else r)
                     (data_requests d)"
    by simp
  have 1: "\<exists>v. fst (updateDataRequestStatus ident status notes d) = Inr v"
    unfolding eq fst_conv by (rule exI) (rule refl)
  have 2: "\<forall>r \<in> set (data_requests (snd (updateDataRequestStatus ident status notes d))).
            dr_request_id r = ident \<longrightarrow> dr_status r = status"
    unfolding eq snd_conv sel by (rule set_request_status_map)
  from 1 2 show ?thesis by (rule conjI)
qed

lemma approveDataRequest_eq:
  "approveDataRequest fault ident notes usr d =
     (case fst (updateDataRequestStatus ident 1 notes d) of
        Inl error \<Rightarrow> (Next error, snd (updateDataRequestStatus ident 1 notes d))
      | Inr updatedRequest \<Rightarrow>
          (Json 200 updatedRequest,
           snd (logAudit fault (u_id usr) ''approve'' ''data_request'' ident [(''notes'', notes_text notes)]
                  (snd (updateDataRequestStatus ident 1 notes d)))))"
  by (simp add: approveDataRequest_def parseStatus_approved case_prod_beta split: prod.splits sum.splits)

lemma rejectDataRequest_eq:
  "js_or notes None \<noteq> None \<Longrightarrow>
   rejectDataRequest fault ident notes usr d =
     (case fst (updateDataRequestStatus ident 2 notes d) of
        Inl error \<Rightarrow> (Next error, snd (updateDataRequestStatus ident 2 notes d))
      | Inr updatedRequest \<Rightarrow>
          (Json 200 updatedRequest,
           snd (logAudit fault (u_id usr) ''reject'' ''data_request'' ident [(''notes'', notes_text notes)]
                  (snd (updateDataRequestStatus ident 2 notes d)))))"
proof -
  assume "js_or notes None \<noteq> None"
  then obtain y where y: "js_or notes None = Some y" by blast
  show ?thesis
    by (simp add: rejectDataRequest_def parseStatus_rejected case_prod_beta y split: prod.splits sum.splits)
qed

text \<open>
  C6, as amended. Reviewing an absent request fails with \<open>Data request not found\<close> and
  changes nothing. Reviewing a request that exists succeeds whatever its stored status
  is: \<open>updateDataRequestStatus\<close> reads the request and then updates the row by id alone,
  so approving stores status 1 and rejecting (with a reason) stores status 2 also over a
  status that was already approved or rejected.
\<close>

theorem review_overwrites_any_status:
  "(getDataRequestById ident d = None \<longrightarrow>
      updateDataRequestStatus ident status notes d = (Inl (Error ''Data request not found''), d) \<and>
      approveDataRequest fault ident notes usr d = (Next (Error ''Data request not found''), d)) \<and>
   (getDataRequestById ident d \<noteq> None \<longrightarrow>
      (\<exists>v. fst (updateDataRequestStatus ident status notes d) = Inr v) \<and>
      (\<forall>r \<in> set (data_requests (snd (updateDataRequestStatus ident status notes d))).
         dr_request_id r = ident \<longrightarrow> dr_status r = status) \<and>
      (\<exists>v. fst (approveDataRequest fault ident notes usr d) = Json 200 v) \<and>
      (\<forall>r \<in> set (data_requests (snd (approveDataRequest fault ident notes usr d))).
         dr_request_id r = ident \<longrightarrow> dr_status r = 1) \<and>
      (js_or notes None \<noteq> None \<longrightarrow>
         (\<exists>v. fst (rejectDataRequest fault ident notes usr d) = Json 200 v) \<and>
         (\<forall>r \<in> set (data_requests (snd (rejectDataRequest fault ident notes usr d))).
            dr_request_id r = ident \<longrightarrow> dr_status r = 2)))"
proof (intro conjI impI)
  assume a: "getDataRequestById ident d = None"
  show "updateDataRequestStatus ident status notes d = (Inl (Error ''Data request not found''), d)"
    using a by (rule updateDataRequestStatus_absent)
  show "approveDataRequest fault ident notes usr d = (Next (Error ''Data request not found''), d)"
    unfolding approveDataRequest_eq updateDataRequestStatus_absent [OF a] by simp
next
  assume h: "getDataRequestById ident d \<noteq> None"
  show "\<exists>v. fst (updateDataRequestStatus ident status notes d) = Inr v"
    using updateDataRequestStatus_present [OF h] by (rule conjunct1)
  show "\<forall>r \<in> set (data_requests (snd (updateDataRequestStatus ident status notes d))).
         dr_request_id r = ident \<longrightarrow> dr_status r = status"
    using updateDataRequestStatus_present [OF h] by (rule conjunct2)
  from updateDataRequestStatus_present [OF h, of 1 "notes"]
  obtain v where v: "fst (updateDataRequestStatus ident 1 notes d) = Inr v"
    and s: "\<forall>r \<in> set (data_requests (snd (updateDataRequestStatus ident 1 notes d))).
         dr_request_id r = ident \<longrightarrow> dr_status r = 1"
    by blast
  show "\<exists>v. fst (approveDataRequest fault ident notes usr d) = Json 200 v"
    unfolding approveDataRequest_eq v by simp
  show "\<forall>r \<in> set (data_requests (snd (approveDataRequest fault ident notes usr d))).
         dr_request_id r = ident \<longrightarrow> dr_status r = 1"
    unfolding approveDataRequest_eq v sum.case snd_conv logAudit_frame by (rule s)
next
  assume h: "getDataRequestById ident d \<noteq> None" and n: "js_or notes None \<noteq> None"
  from updateDataRequestStatus_present [OF h, of 2 "notes"]
  obtain v where v: "fst (updateDataRequestStatus ident 2 notes d) = Inr v"
    and s: "\<forall>r \<in> set (data_requests (snd (updateDataRequestStatus ident 2 notes d))).
         dr_request_id r = ident \<longrightarrow> dr_status r = 2"
    by blast
  show "\<exists>v. fst (rejectDataRequest fault ident notes usr d) = Json 200 v"
    unfolding rejectDataRequest_eq [OF n] v by simp
  show "\<forall>r \<in> set (data_requests (snd (rejectDataRequest fault ident notes usr d))).
         dr_request_id r = ident \<longrightarrow> dr_status r = 2"
    unfolding rejectDataRequest_eq [OF n] v sum.case snd_conv logAudit_frame by (rule s)
qed

theorem review_overwrites_any_status_witness:
  "getDataRequestById ''REQ000009'' sample_db = None \<and>
   approveDataRequest None ''REQ000009'' None admin sample_db = (Next (Error ''Data request not found''), sample_db) \<and>
   getDataRequestById ''REQ000001'' rejected_db \<noteq> None \<and>
   (\<exists>v. fst (approveDataRequest None ''REQ000001'' None admin rejected_db) = Json 200 v) \<and>
   js_or (Some ''duplicate'') None \<noteq> None \<and>
   (\<exists>v. fst (rejectDataRequest None ''REQ000001'' (Some ''duplicate'') admin sample_db) = Json 200 v)"
proof -
  have a: "getDataRequestById ''REQ000009'' sample_db = None"
    by (simp add: getDataRequestById_def sample_defs)
  have b: "getDataRequestById ''REQ000001'' rejected_db \<noteq> None"
    by (simp add: getDataRequestById_def rejected_db_def sample_defs)
  have c: "getDataRequestById ''REQ000001'' sample_db \<noteq> None"
    by (simp add: getDataRequestById_def sample_defs)
  have n: "js_or (Some ''duplicate'') None \<noteq> None" by (simp add: js_or_def)
  show ?thesis
    using review_overwrites_any_status [of "''REQ000009''" sample_db 1 None None admin]
      review_overwrites_any_status [of "''REQ000001''" rejected_db 1 None None admin]
      review_overwrites_any_status [of "''REQ000001''" sample_db 2 "Some ''duplicate''" None admin] a b c n
    by blast
qed

text \<open>
  The claim as stated fails on a rejected request: approving it succeeds, and the stored
  status goes from 2 to 1.
\<close>

theorem review_of_rejected_counterexample:
  "map dr_status (data_requests rejected_db) = [2] \<and>
   fst (approveDataRequest None ''REQ000001'' None admin rejected_db) =
     Json 200 (Some \<lparr>dv_request_id = ''REQ000001'', dv_company_id = ''IN001'', dv_patient_id = ''PT001'',
                     dv_purpose = ''claim review'', dv_date_range_start = None, dv_date_range_end = None,
                     dv_status = ''approved'', dv_request_date = 20, dv_response_date = Some 50,
                     dv_response_notes = None, dv_patient_name = ''A. Perera'',
                     dv_company_name = ''Ceylon Assurance''\<rparr>) \<and>
   map dr_status (data_requests (snd (approveDataRequest None ''REQ000001'' None admin rejected_db))) = [1]"
  unfolding approveDataRequest_eq
  by (simp add: updateDataRequestStatus_def getDataRequestById_def formatStatus_def js_or_def
        rejected_db_def sample_defs Let_def logAudit_frame)

section \<open>Properties of the submission paths\<close>

text \<open>
  The two handlers of the insurance controller refuse a request for a patient who has no
  approved allocation with the company, and write nothing; with an allocation,
  \<open>requestMedicalRecords\<close> writes a pending row.
\<close>

lemma select_connection_console:
  "select_connection p i (console_write l m d) = select_connection p i d"
  unfolding select_connection_def console_write_def by simp

lemma requestMedicalRecords_gate:
  assumes "select_connection patientId (u_id usr) d = []"
  shows "fst (requestMedicalRecords fault patientId requestDetails usr d) =
           Next (AppError ''Patient is not connected to your insurance company'' 403) \<and>
         record_requests (snd (requestMedicalRecords fault patientId requestDetails usr d)) = record_requests d"
  unfolding requestMedicalRecords_def Let_def select_connection_console assms
  by (simp add: console_write_frame)

lemma requestMedicalRecords_connected:
  assumes "select_connection patientId (u_id usr) d = a # rest"
  shows "fst (requestMedicalRecords fault patientId requestDetails usr d) =
           Json 201 (next_id (map rr_id (record_requests d))) \<and>
         record_requests (snd (requestMedicalRecords fault patientId requestDetails usr d)) =
           record_requests d @
             [\<lparr>rr_id = next_id (map rr_id (record_requests d)), rr_company_id = u_id usr,
               rr_patient_id = patientId, rr_request_details = requestDetails,
               rr_status = ''pending'', rr_created_at = clock d\<rparr>]"
  unfolding requestMedicalRecords_def Let_def select_connection_console assms case_prod_beta
  by (simp add: logAudit_frame console_write_frame)

lemma insuranceController_createDataRequest_gate:
  assumes "select_connection (rb_patient_id body) (u_id usr) d = []" "rb_patient_id body \<noteq> []"
  shows "fst (insuranceController_createDataRequest fault body usr d) =
           Next (AppError ''Patient is not connected to your insurance company'' 403) \<and>
         data_requests (snd (insuranceController_createDataRequest fault body usr d)) = data_requests d"
  unfolding insuranceController_createDataRequest_def Let_def assms(1)
  using assms(2) by (simp add: console_write_frame)

text \<open>
  With an approved allocation, a patient and a company that exist, and a request id that
  is not yet in the table, \<open>createDataRequest\<close> of the insurance controller answers 201
  with a pending request. With a request id that is in the table already, the \<open>INSERT\<close>
  is rejected by the primary key, the handler passes the error on and no row is written.
\<close>

lemma first_row_view:
  assumes "rows \<noteq> []" "\<And>x. x \<in> set rows \<Longrightarrow> fst x = new"
  shows "\<exists>p ic. (case rows of [] \<Rightarrow> None | (r, p, ic) # _ \<Rightarrow> Some (F r p ic)) = Some (F new p ic)"
proof (cases rows)
  case Nil
  with assms(1) show ?thesis by simp
next
  case (Cons x xs)
  then have "fst x = new" using assms(2) [of x] by simp
  then show ?thesis unfolding Cons by (cases x) auto
qed

lemma getDataRequestById_fresh:
  assumes "ident \<notin> dr_request_id ` set (data_requests d)"
    "p \<in> set (patients d)" "ic \<in> set (insurance_companies d)"
    "p_patient_id p = dr_patient_id new" "ic_company_id ic = dr_company_id new"
    "dr_request_id new = ident"
  shows "\<exists>v. getDataRequestById ident (d\<lparr>data_requests := data_requests d @ [new]\<rparr>) = Some v \<and>
             dv_request_id v = ident \<and> dv_status v = formatStatus (dr_status new) \<and>
             dv_company_id v = dr_company_id new \<and> dv_patient_id v = dr_patient_id new"
proof -
  let ?d = "d\<lparr>data_requests := data_requests d @ [new]\<rparr>"
  define rows where "rows = [(r, p, ic). r \<leftarrow> data_requests ?d, p \<leftarrow> patients ?d, ic \<leftarrow> insurance_companies ?d,
                   dr_patient_id r = p_patient_id p, dr_company_id r = ic_company_id ic,
                   dr_request_id r = ident]"
  define F :: "data_request \<Rightarrow> patient \<Rightarrow> insurance_company \<Rightarrow> data_request_view"
    where "F = (\<lambda>r p ic.
             \<lparr>dv_request_id = dr_request_id r, dv_company_id = dr_company_id r,
                   dv_patient_id = dr_patient_id r, dv_purpose = dr_purpose r,
                   dv_date_range_start = dr_date_range_start r,
                   dv_date_range_end = dr_date_range_end r,
                   dv_status = formatStatus (dr_status r), dv_request_date = dr_request_date r,
                   dv_response_date = dr_response_date r, dv_response_notes = dr_response_notes r,
                   dv_patient_name = p_name p, dv_company_name = ic_company_name ic\<rparr>)"
  have nf: "\<And>r. r \<in> set (data_requests d) \<Longrightarrow> dr_request_id r \<noteq> ident" using assms(1) by auto
  have set_rows: "\<And>r q c. (r, q, c) \<in> set rows \<longleftrightarrow>
      r \<in> set (data_requests d @ [new]) \<and> q \<in> set (patients d) \<and> c \<in> set (insurance_companies d) \<and>
      dr_patient_id r = p_patient_id q \<and> dr_company_id r = ic_company_id c \<and> dr_request_id r = ident"
    unfolding rows_def by (auto split: if_splits)
  have mem: "fst x = new" if "x \<in> set rows" for x
  proof (cases x)
    case (fields r q c)
    with that have "(r, q, c) \<in> set rows" by (simp only:)
    then have r: "r \<in> set (data_requests d @ [new])" "dr_request_id r = ident"
      unfolding set_rows by blast+
    from r(1) have "r \<in> set (data_requests d) \<or> r = new" by auto
    with nf r(2) have "r = new" by blast
    with fields show ?thesis by simp
  qed
  have "(new, p, ic) \<in> set rows" unfolding set_rows using assms(2-6) by simp
  then have ne: "rows \<noteq> []" by (cases rows) simp_all
  have g: "getDataRequestById ident (d\<lparr>data_requests := data_requests d @ [new]\<rparr>) =
           (case rows of [] \<Rightarrow> None | (r, p, ic) # _ \<Rightarrow> Some (F r p ic))"
    unfolding getDataRequestById_def Let_def rows_def F_def ..
  from first_row_view [OF ne mem, of F] obtain p' ic'
    where "getDataRequestById ident (d\<lparr>data_requests := data_requests d @ [new]\<rparr>) = Some (F new p' ic')"
    unfolding g by blast
  then show ?thesis using assms(6) by (simp add: F_def)
qed
lemma insuranceController_createDataRequest_connected:
  assumes "select_connection (rb_patient_id body) (u_id usr) d = a # rest" "rb_patient_id body \<noteq> []"
    "''REQ'' @ slice_last 6 (toString (clock d)) \<notin> dr_request_id ` set (data_requests d)"
    "p \<in> set (patients d)" "p_patient_id p = rb_patient_id body"
    "ic \<in> set (insurance_companies d)" "ic_company_id ic = u_id usr"
  shows "\<exists>v. fst (insuranceController_createDataRequest fault body usr d) = Json 201 v \<and>
             dv_status v = ''pending'' \<and> dv_patient_id v = rb_patient_id body \<and>
             dv_company_id v = u_id usr"
proof -
  let ?d0 = "console_write ConsoleLog ''Creating data request with:'' d"
  let ?ident = "''REQ'' @ slice_last 6 (toString (clock d))"
  let ?new = "\<lparr>dr_request_id = ?ident, dr_company_id = u_id usr, dr_patient_id = rb_patient_id body,
                dr_purpose = rb_purpose body,
                dr_date_range_start = js_or (rb_date_range_start body) None,
                dr_date_range_end = js_or (rb_date_range_end body) None,
                dr_status = 0, dr_request_date = clock d, dr_response_date = None,
                dr_response_notes = None, dr_created_by = u_id usr,
                dr_request_details = rb_request_details body\<rparr>"
  have fresh: "?ident \<notin> dr_request_id ` set (data_requests ?d0)"
    using assms(3) by (simp add: console_write_frame del: toString.simps)
  have "\<exists>v. getDataRequestById ?ident (?d0\<lparr>data_requests := data_requests ?d0 @ [?new]\<rparr>) = Some v \<and>
             dv_request_id v = ?ident \<and> dv_status v = formatStatus (dr_status ?new) \<and>
             dv_company_id v = dr_company_id ?new \<and> dv_patient_id v = dr_patient_id ?new"
    by (rule getDataRequestById_fresh [OF fresh, of p ic])
      (simp_all add: console_write_frame assms(4-7) del: toString.simps)
  then obtain v where v: "getDataRequestById ?ident (?d0\<lparr>data_requests := data_requests ?d0 @ [?new]\<rparr>) = Some v"
    and s: "dv_status v = ''pending''" "dv_company_id v = u_id usr" "dv_patient_id v = rb_patient_id body"
    by (auto simp: formatStatus_def simp del: toString.simps)
  have m: "dataRequestModel_createDataRequest
             \<lparr>rd_company_id = u_id usr, rd_patient_id = rb_patient_id body, rd_purpose = rb_purpose body,
               rd_date_range_start = rb_date_range_start body, rd_date_range_end = rb_date_range_end body,
               rd_created_by = u_id usr, rd_request_details = rb_request_details body\<rparr> ?d0 =
           (Inr (Some v), ?d0\<lparr>data_requests := data_requests ?d0 @ [?new]\<rparr>)"
    using fresh v
    by (simp add: dataRequestModel_createDataRequest_def Let_def console_write_frame del: toString.simps)
  have "fst (insuranceController_createDataRequest fault body usr d) = Json 201 v"
    unfolding insuranceController_createDataRequest_def Let_def assms(1) m
    using assms(2) by (simp add: case_prod_beta del: toString.simps)
  with s show ?thesis by blast
qed

lemma insuranceController_createDataRequest_collision:
  assumes "select_connection (rb_patient_id body) (u_id usr) d = a # rest" "rb_patient_id body \<noteq> []"
    "''REQ'' @ slice_last 6 (toString (clock d)) \<in> dr_request_id ` set (data_requests d)"
  shows "fst (insuranceController_createDataRequest fault body usr d) = Next (DbError ''ER_DUP_ENTRY'') \<and>
         data_requests (snd (insuranceController_createDataRequest fault body usr d)) = data_requests d"
proof -
  let ?d0 = "console_write ConsoleLog ''Creating data request with:'' d"
  have m: "\<And>rd. dataRequestModel_createDataRequest rd ?d0 = (Inl (DbError ''ER_DUP_ENTRY''), ?d0)"
    using assms(3)
    by (simp add: dataRequestModel_createDataRequest_def Let_def console_write_frame del: toString.simps)
  show ?thesis
    unfolding insuranceController_createDataRequest_def Let_def assms(1) m
    using assms(2) by (simp add: console_write_frame del: toString.simps)
qed

text \<open>
  \<open>createDataRequest\<close> of the data-request controller calls the model at once and so
  stores a request for a pair with no allocation. No route file mounts this handler; the
  only route that takes a submission is \<open>POST /insurance/requests\<close>, served by the
  insurance controller.
\<close>

lemma unmounted_handler_has_no_gate:
  "select_connection ''PT001'' ''IN001'' unconnected_db = [] \<and>
   fst (requestMedicalRecords None ''PT001'' ''{}'' insurer unconnected_db) =
     Next (AppError ''Patient is not connected to your insurance company'' 403) \<and>
   fst (insuranceController_createDataRequest None body1 insurer unconnected_db) =
     Next (AppError ''Patient is not connected to your insurance company'' 403) \<and>
   fst (dataRequestController_createDataRequest None body1 admin unconnected_db) =
     Json 201 \<lparr>dv_request_id = ''REQ50'', dv_company_id = ''IN001'', dv_patient_id = ''PT001'',
               dv_purpose = ''claim review'', dv_date_range_start = None, dv_date_range_end = None,
               dv_status = ''pending'', dv_request_date = 50, dv_response_date = None,
               dv_response_notes = None, dv_patient_name = ''A. Perera'',
               dv_company_name = ''Ceylon Assurance''\<rparr> \<and>
   map dr_request_id (data_requests (snd (dataRequestController_createDataRequest None body1 admin unconnected_db))) =
     [''REQ000001'', ''REQ50'']"
  by (simp add: select_connection_def requestMedicalRecords_def insuranceController_createDataRequest_def
        dataRequestController_createDataRequest_def dataRequestModel_createDataRequest_def
        getDataRequestById_def formatStatus_def js_or_def slice_last_def
        unconnected_db_def sample_defs Let_def case_prod_beta logAudit_frame console_write_def char_of_eq_iff)

lemma toString_first: "toString 1700000000050 = ''1700000000050''"
  by (simp add: char_of_eq_iff)

lemma toString_later: "toString 1700001000050 = ''1700001000050''"
  by (simp add: char_of_eq_iff)

lemma first_submission:
  "insuranceController_createDataRequest None body1 insurer submission_db =
     (Json 201
       \<lparr>dv_request_id = ''REQ000050'', dv_company_id = ''IN001'', dv_patient_id = ''PT001'',
         dv_purpose = ''claim review'', dv_date_range_start = None, dv_date_range_end = None,
         dv_status = ''pending'', dv_request_date = 1700000000050, dv_response_date = None,
         dv_response_notes = None, dv_patient_name = ''A. Perera'',
         dv_company_name = ''Ceylon Assurance''\<rparr>,
      submission_db
        \<lparr>data_requests := [request1,
           \<lparr>dr_request_id = ''REQ000050'', dr_company_id = ''IN001'', dr_patient_id = ''PT001'',
             dr_purpose = ''claim review'', dr_date_range_start = None, dr_date_range_end = None,
             dr_status = 0, dr_request_date = 1700000000050, dr_response_date = None,
             dr_response_notes = None, dr_created_by = ''IN001'', dr_request_details = ''{}''\<rparr>],
         audit_logs := [\<lparr>al_id = 1, al_user_id = ''IN001'', al_action = ''create'',
             al_resource_type = ''data_request'', al_resource_id = ''REQ000050'',
             al_details = [(''purpose'', ''claim review''), (''date_range'', ''any to any'')],
             al_created_at = 1700000000050\<rparr>],
         console := [(ConsoleLog, ''Creating data request with:'')]\<rparr>)"
  apply (simp add: select_connection_def insuranceController_createDataRequest_def
        dataRequestModel_createDataRequest_def getDataRequestById_def slice_last_def toString_first
        formatStatus_def js_or_def or_default_def logAudit_def insert_audit_log_def next_id_def
        submission_db_def sample_defs Let_def case_prod_beta console_write_def del: toString.simps)
  done


lemma later_db_eq:
  "data_requests later_db = [request1,
           \<lparr>dr_request_id = ''REQ000050'', dr_company_id = ''IN001'', dr_patient_id = ''PT001'',
             dr_purpose = ''claim review'', dr_date_range_start = None, dr_date_range_end = None,
             dr_status = 0, dr_request_date = 1700000000050, dr_response_date = None,
             dr_response_notes = None, dr_created_by = ''IN001'', dr_request_details = ''{}''\<rparr>]"
  "insurance_allocations later_db = [allocation1]"
  "clock later_db = 1700001000050"
  unfolding later_db_def first_submission by (simp_all add: submission_db_def sample_db_def)

text \<open>
  C4. On \<open>POST /insurance/requests\<close> a submission for a pair with no approved allocation is
  refused with 403 and nothing is stored, and a submission for a pair with an approved
  allocation is answered 201 with a request of status \<open>pending\<close>. But a submission for
  an approved pair does not always succeed: the request id is \<open>REQ\<close> and the last six
  digits of \<open>Date.now()\<close>, so a submission made 1000000 milliseconds after another gets
  the id of the first (\<open>REQ000050\<close>), the primary key rejects the \<open>INSERT\<close> with
  \<open>ER_DUP_ENTRY\<close>, and no request is created.
\<close>

theorem submission_id_collision:
  "select_connection ''PT001'' ''IN001'' unconnected_db = [] \<and>
   fst (insuranceController_createDataRequest None body1 insurer unconnected_db) =
     Next (AppError ''Patient is not connected to your insurance company'' 403) \<and>
   select_connection ''PT001'' ''IN001'' submission_db = [allocation1] \<and>
   clock submission_db = 1700000000050 \<and>
   fst (insuranceController_createDataRequest None body1 insurer submission_db) =
     Json 201
       \<lparr>dv_request_id = ''REQ000050'', dv_company_id = ''IN001'', dv_patient_id = ''PT001'',
         dv_purpose = ''claim review'', dv_date_range_start = None, dv_date_range_end = None,
         dv_status = ''pending'', dv_request_date = 1700000000050, dv_response_date = None,
         dv_response_notes = None, dv_patient_name = ''A. Perera'',
         dv_company_name = ''Ceylon Assurance''\<rparr> \<and>
   select_connection ''PT001'' ''IN001'' later_db = [allocation1] \<and>
   clock later_db = 1700001000050 \<and>
   map dr_request_id (data_requests later_db) = [''REQ000001'', ''REQ000050''] \<and>
   fst (insuranceController_createDataRequest None body1 insurer later_db) =
     Next (DbError ''ER_DUP_ENTRY'') \<and>
   data_requests (snd (insuranceController_createDataRequest None body1 insurer later_db)) =
     data_requests later_db"
proof -
  have u: "select_connection ''PT001'' ''IN001'' unconnected_db = []"
    by (simp add: select_connection_def unconnected_db_def sample_defs)
  have g: "fst (insuranceController_createDataRequest None body1 insurer unconnected_db) =
     Next (AppError ''Patient is not connected to your insurance company'' 403)"
    using u by (simp add: insuranceController_createDataRequest_def Let_def insurer_def body1_def)
  have c1: "select_connection ''PT001'' ''IN001'' submission_db = [allocation1]"
    by (simp add: select_connection_def submission_db_def sample_defs)
  have k1: "clock submission_db = 1700000000050" by (simp add: submission_db_def)
  have c2: "select_connection ''PT001'' ''IN001'' later_db = [allocation1]"
    by (simp add: select_connection_def later_db_eq allocation1_def)
  have ids: "map dr_request_id (data_requests later_db) = [''REQ000001'', ''REQ000050'']"
    by (simp add: later_db_eq request1_def)
  have dup: "''REQ'' @ slice_last 6 (toString (clock later_db)) \<in> dr_request_id ` set (data_requests later_db)"
    by (simp add: later_db_eq slice_last_def toString_later del: toString.simps)
  have c2': "select_connection (rb_patient_id body1) (u_id insurer) later_db = allocation1 # []"
    using c2 by (simp add: body1_def insurer_def)
  have ne: "rb_patient_id body1 \<noteq> []" by (simp add: body1_def)
  note col = insuranceController_createDataRequest_collision [OF c2' ne dup, of None]
  have f1: "fst (insuranceController_createDataRequest None body1 insurer submission_db) =
     Json 201
       \<lparr>dv_request_id = ''REQ000050'', dv_company_id = ''IN001'', dv_patient_id = ''PT001'',
         dv_purpose = ''claim review'', dv_date_range_start = None, dv_date_range_end = None,
         dv_status = ''pending'', dv_request_date = 1700000000050, dv_response_date = None,
         dv_response_notes = None, dv_patient_name = ''A. Perera'',
         dv_company_name = ''Ceylon Assurance''\<rparr>"
    unfolding first_submission by (rule fst_conv)
  show ?thesis
    by (intro conjI u g c1 k1 f1 c2 later_db_eq(3) ids col [THEN conjunct1] col [THEN conjunct2])
qed

section \<open>Properties of two reads at the same time\<close>

lemma select_same:
  assumes "same_read_tables d0 d"
  shows "select_approved_request r i d = select_approved_request r i d0"
    and "select_approved_records p r d = select_approved_records p r d0"
proof -
  from assms have e: "approved_records d = approved_records d0" "data_requests d = data_requests d0"
    "records d = records d0" "patients d = patients d0" "staff d = staff d0"
    by (simp_all add: same_read_tables_def)
  show "select_approved_request r i d = select_approved_request r i d0"
    unfolding select_approved_request_def e ..
  show "select_approved_records p r d = select_approved_records p r d0"
    unfolding select_approved_records_def e ..
qed

lemma reader_step_params:
  "rd_fault (fst (reader_step rd d)) = rd_fault rd"
  "rd_requestId (fst (reader_step rd d)) = rd_requestId rd"
  "rd_user (fst (reader_step rd d)) = rd_user rd"
  by (cases "pc rd"; simp add: Let_def case_prod_beta)+

lemma reader_step_tables:
  assumes "same_read_tables d0 d"
  shows "same_read_tables d0 (snd (reader_step rd d))"
  using assms
  by (cases "pc rd"; simp add: same_read_tables_def Let_def case_prod_beta logAudit_frame console_write_frame)

lemma reader_step_ok:
  assumes ok: "reader_ok d0 rd" and same: "same_read_tables d0 d"
  shows "reader_ok d0 (fst (reader_step rd d))"
proof (cases "pc rd")
  case AtSelectRequest
  show ?thesis
  proof (cases "select_approved_request (rd_requestId rd) (u_id (rd_user rd)) d0")
    case Nil
    then show ?thesis using AtSelectRequest
      by (simp add: reader_ok_def Let_def select_same [OF same] getApprovedRecords_reply)
  next
    case (Cons r rs)
    then show ?thesis using AtSelectRequest
      by (simp add: reader_ok_def Let_def select_same [OF same])
  qed
next
  case AtSelectRecords
  then show ?thesis using ok
    by (auto simp add: reader_ok_def Let_def select_same [OF same])
next
  case AtLogAudit
  with ok have q: "rd_request rd = select_approved_request (rd_requestId rd) (u_id (rd_user rd)) d0"
    and ne: "rd_request rd \<noteq> []"
    and f0: "rd_found rd = select_approved_records (dr_patient_id (hd (rd_request rd))) (rd_requestId rd) d0"
    by (auto simp add: reader_ok_def)
  from ne obtain r rs where a: "rd_request rd = r # rs" by (cases "rd_request rd") simp_all
  have rq: "select_approved_request (rd_requestId rd) (u_id (rd_user rd)) d0 = r # rs"
    using q a by simp
  have f: "rd_found rd = select_approved_records (dr_patient_id r) (rd_requestId rd) d0"
    using f0 a by simp
  show ?thesis using AtLogAudit
    by (simp add: reader_ok_def Let_def case_prod_beta getApprovedRecords_reply rq a f)
next
  case Responded
  then show ?thesis using ok by (simp add: reader_ok_def)
qed

lemma reader_step_progress:
  "steps_left (fst (reader_step rd d)) \<le> steps_left rd - 1"
  by (cases "pc rd"; simp add: steps_left_def Let_def case_prod_beta)

lemma new_reader_ok: "reader_ok d0 (new_reader fault requestId usr)"
  by (simp add: reader_ok_def new_reader_def)

lemma run_schedule_ok:
  assumes "reader_ok d0 a" "reader_ok d0 b" "same_read_tables d0 d"
  shows "reader_ok d0 (fst (run_schedule sched (a, b, d))) \<and>
         reader_ok d0 (fst (snd (run_schedule sched (a, b, d)))) \<and>
         same_read_tables d0 (snd (snd (run_schedule sched (a, b, d)))) \<and>
         rd_fault (fst (run_schedule sched (a, b, d))) = rd_fault a \<and>
         rd_requestId (fst (run_schedule sched (a, b, d))) = rd_requestId a \<and>
         rd_user (fst (run_schedule sched (a, b, d))) = rd_user a \<and>
         rd_fault (fst (snd (run_schedule sched (a, b, d)))) = rd_fault b \<and>
         rd_requestId (fst (snd (run_schedule sched (a, b, d)))) = rd_requestId b \<and>
         rd_user (fst (snd (run_schedule sched (a, b, d)))) = rd_user b \<and>
         steps_left (fst (run_schedule sched (a, b, d))) \<le> steps_left a - length (filter (\<lambda>x. x) sched) \<and>
         steps_left (fst (snd (run_schedule sched (a, b, d)))) \<le> steps_left b - length (filter (\<lambda>x. \<not> x) sched)"
  using assms
proof (induction sched arbitrary: a b d)
  case Nil
  then show ?case by simp
next
  case (Cons x sched)
  show ?case
  proof (cases x)
    case True
    let ?a = "fst (reader_step a d)" and ?d = "snd (reader_step a d)"
    have r: "run_schedule (x # sched) (a, b, d) = run_schedule sched (?a, b, ?d)"
      using True by (simp add: case_prod_beta del: reader_step.simps)
    have ih: "reader_ok d0 ?a" "reader_ok d0 b" "same_read_tables d0 ?d"
      using Cons.prems reader_step_ok reader_step_tables by blast+
    have p: "steps_left ?a \<le> steps_left a - 1" by (rule reader_step_progress)
    from Cons.IH [OF ih] p True show ?thesis
      unfolding r by (auto simp add: reader_step_params simp del: reader_step.simps)
  next
    case False
    let ?b = "fst (reader_step b d)" and ?d = "snd (reader_step b d)"
    have r: "run_schedule (x # sched) (a, b, d) = run_schedule sched (a, ?b, ?d)"
      using False by (simp add: case_prod_beta del: reader_step.simps)
    have ih: "reader_ok d0 a" "reader_ok d0 ?b" "same_read_tables d0 ?d"
      using Cons.prems reader_step_ok reader_step_tables by blast+
    have p: "steps_left ?b \<le> steps_left b - 1" by (rule reader_step_progress)
    from Cons.IH [OF ih] p False show ?thesis
      unfolding r by (auto simp add: reader_step_params simp del: reader_step.simps)
  qed
qed

lemma same_read_tables_refl: "same_read_tables d d"
  by (simp add: same_read_tables_def)

lemma responded_reply:
  assumes "reader_ok d0 rd" "steps_left rd = 0"
  shows "rd_reply rd = Some (fst (getApprovedRecords (rd_fault rd) (rd_requestId rd) (rd_user rd) d0))"
  using assms by (cases "pc rd") (simp_all add: reader_ok_def steps_left_def)

lemma steps_left_new: "steps_left (new_reader fault requestId usr) = 3"
  by (simp add: steps_left_def new_reader_def)

lemma new_reader_params:
  "rd_fault (new_reader fault requestId usr) = fault"
  "rd_requestId (new_reader fault requestId usr) = requestId"
  "rd_user (new_reader fault requestId usr) = usr"
  by (simp_all add: new_reader_def)

lemma lone_reader:
  "rd_reply (fst (run_schedule [True, True, True] (new_reader fault requestId usr, b, d))) =
     Some (fst (getApprovedRecords fault requestId usr d)) \<and>
   snd (snd (run_schedule [True, True, True] (new_reader fault requestId usr, b, d))) =
     snd (getApprovedRecords fault requestId usr d)"
proof (cases "select_approved_request requestId (u_id usr) d")
  case Nil
  then show ?thesis
    by (simp add: new_reader_def getApprovedRecords_def Let_def)
next
  case (Cons r rs)
  then show ?thesis
    by (simp add: new_reader_def getApprovedRecords_def Let_def case_prod_beta
          select_approved_request_def select_approved_records_def console_write_def)
qed

text \<open>
  C2, as amended. The read path has no consumption step: its statements are two
  \<open>SELECT\<close>s and the audit \<open>INSERT\<close>, and none of them writes \<open>approved_records\<close>. In
  every interleaving of the statements of two reads, \<open>approved_records\<close> is unchanged,
  and a reader that has responded, as every reader has after three of its statements,
  holds the response of a read served alone. Two readers therefore both succeed, also on
  the last remaining unit of quota.
\<close>

theorem interleaved_reads_never_consume:
  "(let R = run_schedule sched (new_reader fa ra ua, new_reader fb rb ub, d) in
     approved_records (snd (snd R)) = approved_records d \<and>
     (3 \<le> length (filter (\<lambda>x. x) sched) \<longrightarrow>
        rd_reply (fst R) = Some (fst (getApprovedRecords fa ra ua d))) \<and>
     (3 \<le> length (filter (\<lambda>x. \<not> x) sched) \<longrightarrow>
        rd_reply (fst (snd R)) = Some (fst (getApprovedRecords fb rb ub d))) \<and>
     (pc (fst R) = Responded \<longrightarrow>
        rd_reply (fst R) = Some (fst (getApprovedRecords fa ra ua d))) \<and>
     (pc (fst (snd R)) = Responded \<longrightarrow>
        rd_reply (fst (snd R)) = Some (fst (getApprovedRecords fb rb ub d))))"
proof -
  let ?a = "new_reader fa ra ua" and ?b = "new_reader fb rb ub"
  let ?R = "run_schedule sched (?a, ?b, d)"
  note inv = run_schedule_ok [OF new_reader_ok [of d fa ra ua] new_reader_ok [of d fb rb ub]
      same_read_tables_refl [of d], of sched]
  from inv have t: "approved_records (snd (snd ?R)) = approved_records d"
    by (simp add: same_read_tables_def)
  have a: "rd_reply (fst ?R) = Some (fst (getApprovedRecords fa ra ua d))"
    if "3 \<le> length (filter (\<lambda>x. x) sched)"
  proof -
    from inv that have "steps_left (fst ?R) = 0" by (simp add: steps_left_new)
    with inv have "rd_reply (fst ?R) =
        Some (fst (getApprovedRecords (rd_fault (fst ?R)) (rd_requestId (fst ?R)) (rd_user (fst ?R)) d))"
      using responded_reply by blast
    with inv show ?thesis by (simp add: new_reader_params)
  qed
  have b: "rd_reply (fst (snd ?R)) = Some (fst (getApprovedRecords fb rb ub d))"
    if "3 \<le> length (filter (\<lambda>x. \<not> x) sched)"
  proof -
    from inv that have "steps_left (fst (snd ?R)) = 0" by (simp add: steps_left_new)
    with inv have "rd_reply (fst (snd ?R)) =
        Some (fst (getApprovedRecords (rd_fault (fst (snd ?R))) (rd_requestId (fst (snd ?R)))
                (rd_user (fst (snd ?R))) d))"
      using responded_reply by blast
    with inv show ?thesis by (simp add: new_reader_params)
  qed
  have a': "rd_reply (fst ?R) = Some (fst (getApprovedRecords fa ra ua d))"
    if "pc (fst ?R) = Responded"
  proof -
    from that have "steps_left (fst ?R) = 0" by (simp add: steps_left_def)
    with inv have "rd_reply (fst ?R) =
        Some (fst (getApprovedRecords (rd_fault (fst ?R)) (rd_requestId (fst ?R)) (rd_user (fst ?R)) d))"
      using responded_reply by blast
    with inv show ?thesis by (simp add: new_reader_params)
  qed
  have b': "rd_reply (fst (snd ?R)) = Some (fst (getApprovedRecords fb rb ub d))"
    if "pc (fst (snd ?R)) = Responded"
  proof -
    from that have "steps_left (fst (snd ?R)) = 0" by (simp add: steps_left_def)
    with inv have "rd_reply (fst (snd ?R)) =
        Some (fst (getApprovedRecords (rd_fault (fst (snd ?R))) (rd_requestId (fst (snd ?R)))
                (rd_user (fst (snd ?R))) d))"
      using responded_reply by blast
    with inv show ?thesis by (simp add: new_reader_params)
  qed
  from t a b a' b' show ?thesis unfolding Let_def by blast
qed

lemma sample_read_reply:
  "fst (getApprovedRecords fault ''REQ000001'' insurer sample_db) =
     Json 200 (request1, [(record1, ''A. Perera'', ''N. Silva'')])"
  by (simp add: getApprovedRecords_def select_approved_request_def select_approved_records_def
        sample_defs Let_def case_prod_beta)

theorem interleaved_reads_never_consume_witness:
  "(let R = run_schedule [True, False, False, True, False, True]
              (new_reader None ''REQ000001'' insurer, new_reader (Some (DbError ''ECONNRESET'')) ''REQ000001'' insurer,
               sample_db) in
     approved_records (snd (snd R)) = [grant1] \<and>
     rd_reply (fst R) = Some (Json 200 (request1, [(record1, ''A. Perera'', ''N. Silva'')])) \<and>
     rd_reply (fst (snd R)) = Some (Json 200 (request1, [(record1, ''A. Perera'', ''N. Silva'')])))"
proof -
  have a: "approved_records sample_db = [grant1]" by (simp add: sample_db_def)
  have n: "3 \<le> length (filter (\<lambda>x. x) [True, False, False, True, False, True])"
    "3 \<le> length (filter (\<lambda>x. \<not> x) [True, False, False, True, False, True])"
    by simp_all
  show ?thesis
    using interleaved_reads_never_consume [of "[True, False, False, True, False, True]" None "''REQ000001''" insurer
        "Some (DbError ''ECONNRESET'')" "''REQ000001''" insurer sample_db] n
    unfolding Let_def sample_read_reply a by blast
qed

text \<open>
  The claim as stated fails on the sample store, where one access is left: with the
  statements of two reads taking turns, both readers get the record, and
  \<open>access_count\<close> is still 0.
\<close>

theorem concurrent_last_unit_counterexample:
  "(let R = run_schedule [True, False, True, False, True, False]
              (new_reader None ''REQ000001'' insurer, new_reader None ''REQ000001'' insurer, sample_db) in
     map ar_max_access_count (approved_records sample_db) = [1] \<and>
     map ar_access_count (approved_records sample_db) = [0] \<and>
     rd_reply (fst R) = Some (Json 200 (request1, [(record1, ''A. Perera'', ''N. Silva'')])) \<and>
     rd_reply (fst (snd R)) = Some (Json 200 (request1, [(record1, ''A. Perera'', ''N. Silva'')])) \<and>
     map ar_access_count (approved_records (snd (snd R))) = [0])"
  by (simp add: new_reader_def select_approved_request_def select_approved_records_def
        sample_defs Let_def case_prod_beta logAudit_def insert_audit_log_def console_write_def next_id_def)

end
